theory Spec2Isabelle
  imports Main "HOL-Library.Sublist"
begin

section \<open>Strings\<close>

text \<open>
  A JavaScript string is a sequence of code units. The model uses \<^typ>\<open>string\<close>, whose
  characters are the code units below 256 (ASCII and the Latin-1 supplement). On that
  range \<open>String.prototype.toLowerCase\<close> works code unit by code unit: it maps
  \<open>A\<close>..\<open>Z\<close> (65..90) and the upper-case letters 192..222 other than the
  multiplication sign 215 to the code unit 32 above, and leaves every other code unit as
  it is.
\<close>

definition toLowerCase_char :: "char \<Rightarrow> char" where
  "toLowerCase_char c =
     (let n = (of_char c :: nat)
      in if (65 \<le> n \<and> n \<le> 90) \<or> (192 \<le> n \<and> n \<le> 222 \<and> n \<noteq> 215)
         then char_of (n + 32) else c)"

definition toLowerCase :: "string \<Rightarrow> string" where
  "toLowerCase s = map toLowerCase_char s"

text \<open>
  \<open>String.prototype.trim\<close> removes white space and line terminators from both ends.
  Below 256 these are TAB, LF, VT, FF, CR, SPACE and the no-break space 160.
\<close>

definition is_white_space :: "char \<Rightarrow> bool" where
  "is_white_space c = ((of_char c :: nat) \<in> {9, 10, 11, 12, 13, 32, 160})"

definition trim :: "string \<Rightarrow> string" where
  "trim s = rev (dropWhile is_white_space (rev (dropWhile is_white_space s)))"

text \<open>
  \<open>s.includes(t)\<close>: \<open>t\<close> occurs in \<open>s\<close> as a contiguous run of code units, tried at
  every start position from the left; the empty string occurs everywhere.
\<close>

fun includes_str :: "string \<Rightarrow> string \<Rightarrow> bool" where
  "includes_str [] t = (t = [])"
| "includes_str (c # s) t = (take (length t) (c # s) = t \<or> includes_str s t)"

text \<open>A string is falsy in a condition exactly when it is empty.\<close>

definition truthy :: "string \<Rightarrow> bool" where
  "truthy s = (s \<noteq> [])"

section \<open>Messages\<close>

text \<open>
  The \<open>Message\<close> interface of \<open>MessageList.tsx\<close>, \<open>MessageItem\<close> and
  \<open>ChatArea.tsx\<close>. The field \<open>id\<close> is called \<open>msgId\<close> here. The field
  \<open>createdAt\<close> is a date string in the source and is read only through
  \<open>new Date(createdAt).getTime()\<close>; the record carries that value: \<open>Some ms\<close> for
  the epoch milliseconds of a date that parses, \<open>None\<close> for \<open>NaN\<close>.
\<close>

record Message =
  msgId :: string
  channelId :: string
  userId :: string
  content :: string
  messageType :: string
  threadId :: "string option"
  replyCount :: int
  createdAt :: "int option"
  updatedAt :: string

section \<open>The message list: filter and grouping\<close>

text \<open>
  \<open>MessageList.tsx\<close>, lines 31-34:
  \<^verbatim>\<open>
  const filteredMessages = messages.filter(message => {
    if (!searchQuery.trim()) return true
    return message.content.toLowerCase().includes(searchQuery.toLowerCase())
  })
  \<close>
\<close>

definition filteredMessages :: "Message list \<Rightarrow> string \<Rightarrow> Message list" where
  "filteredMessages messages searchQuery =
     filter (\<lambda>message.
        if \<not> truthy (trim searchQuery) then True
        else includes_str (toLowerCase (content message)) (toLowerCase searchQuery))
       messages"

text \<open>
  Lines 61-64, for the element at \<open>index\<close> of the filtered list:
  \<^verbatim>\<open>
  const prevMessage = index > 0 ? filteredMessages[index - 1] : null
  const showAvatar = !prevMessage ||
    prevMessage.userId !== message.userId ||
    new Date(message.createdAt).getTime() - new Date(prevMessage.createdAt).getTime() > 300000
  \<close>
  A difference with a \<open>NaN\<close> operand is \<open>NaN\<close>, and \<open>NaN > 300000\<close> is false.
\<close>

definition gap_exceeds :: "int option \<Rightarrow> int option \<Rightarrow> bool" where
  "gap_exceeds t t_prev =
     (case t of None \<Rightarrow> False
      | Some a \<Rightarrow> (case t_prev of None \<Rightarrow> False | Some b \<Rightarrow> a - b > 300000))"

definition showAvatar :: "Message list \<Rightarrow> nat \<Rightarrow> bool" where
  "showAvatar fm index =
     (let message = fm ! index;
          prevMessage = (if index > 0 then Some (fm ! (index - 1)) else None)
      in case prevMessage of
           None \<Rightarrow> True
         | Some p \<Rightarrow> userId p \<noteq> userId message \<or> gap_exceeds (createdAt message) (createdAt p))"

section \<open>What the specification calls a match\<close>

text \<open>
  Two code units are the same letter up to case when they are equal or one is the
  upper-case form of the other: the upper-case letters are 65..90 and 192..222 without
  215, and the lower-case form is 32 above.
\<close>

definition is_upper :: "char \<Rightarrow> bool" where
  "is_upper c = (let n = (of_char c :: nat)
                 in (65 \<le> n \<and> n \<le> 90) \<or> (192 \<le> n \<and> n \<le> 222 \<and> n \<noteq> 215))"

definition same_letter :: "char \<Rightarrow> char \<Rightarrow> bool" where
  "same_letter a b =
     (a = b
      \<or> (is_upper a \<and> (of_char b :: nat) = of_char a + 32)
      \<or> (is_upper b \<and> (of_char a :: nat) = of_char b + 32))"

text \<open>
  The filter text occurs in the body as a case-insensitive substring: some contiguous
  run of the body has the length of the filter text and agrees with it letter by letter
  up to case.
\<close>

definition ci_substring :: "string \<Rightarrow> string \<Rightarrow> bool" where
  "ci_substring q body =
     (\<exists>pre occ post. body = pre @ occ @ post \<and> list_all2 same_letter occ q)"

text \<open>A filter text is blank when it is empty or consists of white space only.\<close>

definition blank :: "string \<Rightarrow> bool" where
  "blank q = list_all is_white_space q"


section \<open>Rendering one message\<close>

text \<open>
  A render either returns or throws: \<open>new RegExp\<close> raises a \<open>SyntaxError\<close> on a
  pattern that is not a regular expression.
\<close>

datatype 'a js_result = Returns 'a | Throws

text \<open>
  \<open>MessageItem\<close>, lines 88-93:
  \<^verbatim>\<open>
  const highlightSearchTerm = (text: string, searchTerm: string) => {
    if (!searchTerm.trim()) return text
    const regex = new RegExp(`(${searchTerm})`, 'gi')
    return text.replace(regex, '<mark class="bg-yellow-200 dark:bg-yellow-800">$1</mark>')
  }
  \<close>
  The replacement template is a fixed opening tag, \<open>$1\<close> (the text matched by the one
  capture group) and a fixed closing tag.
\<close>

definition mark_open :: string where
  \<open>mark_open = ''<mark class="bg-yellow-200 dark:bg-yellow-800">''\<close>

definition mark_close :: string where
  "mark_close = ''</mark>''"

text \<open>
  The characters with a meaning of their own in a pattern:
  \<open>^ $ \ . * + ? ( ) [ ] { } |\<close>. Every other character of a pattern stands for itself.
\<close>

definition is_syntax_char :: "char \<Rightarrow> bool" where
  "is_syntax_char c = (c \<in> set ''^$.*+?()[]{}|'' \<or> c = CHR 0x5C)"

text \<open>
  Under the flag \<open>i\<close> two code units match when their canonical forms are equal. The
  canonical form is the upper-case code unit when upper-casing yields a single code
  unit: for a code unit below 256 that is 32 below for \<open>a\<close>..\<open>z\<close> (97..122) and for
  224..254 other than the division sign 247, the code unit 376 for 255, the code unit
  924 for the micro sign 181, and the code unit itself otherwise (the sharp s 223
  upper-cases to two code units and stays).
\<close>

definition canonicalize :: "char \<Rightarrow> nat" where
  "canonicalize c =
     (let n = (of_char c :: nat)
      in if (97 \<le> n \<and> n \<le> 122) \<or> (224 \<le> n \<and> n \<le> 254 \<and> n \<noteq> 247) then n - 32
         else if n = 255 then 376
         else if n = 181 then 924
         else n)"

definition matches_at :: "string \<Rightarrow> string \<Rightarrow> bool" where
  "matches_at t s =
     (length t \<le> length s \<and> map canonicalize (take (length t) s) = map canonicalize t)"

text \<open>
  \<open>text.replace(regex, template)\<close> for the pattern \<open>(t)\<close> with flags \<open>gi\<close>, where
  \<open>t\<close> is a non-empty run of characters that stand for themselves: the text is scanned
  from the left; where \<open>t\<close> matches, the matched text is emitted between the two tags
  and the scan goes on behind the match; elsewhere one code unit is copied.
\<close>

function replace_literal :: "string \<Rightarrow> string \<Rightarrow> string" where
  "replace_literal t [] = []"
| "replace_literal t (c # s) =
     (if t \<noteq> [] \<and> matches_at t (c # s)
      then mark_open @ take (length t) (c # s) @ mark_close
             @ replace_literal t (drop (length t) (c # s))
      else c # replace_literal t s)"
  by pat_completeness auto
termination
  by (relation "measure (\<lambda>(t, s). length s)") auto

text \<open>
  The pattern source is one capture group around a non-empty run of characters that
  stand for themselves.
\<close>

definition literal_group :: "string \<Rightarrow> string option" where
  "literal_group pattern =
     (case pattern of
        [] \<Rightarrow> None
      | c # rest \<Rightarrow>
          if c = CHR ''('' \<and> rest \<noteq> [] \<and> last rest = CHR '')'' \<and> butlast rest \<noteq> []
             \<and> list_all (\<lambda>x. \<not> is_syntax_char x) (butlast rest)
          then Some (butlast rest) else None)"

text \<open>
  \<open>text.replace(new RegExp(pattern, 'gi'), template)\<close>. The regular expression engine is
  the platform's. Its behaviour on a literal group is the scan above; on any other
  pattern source (a \<open>SyntaxError\<close>, or the replacement the pattern asks for) it is the
  parameter \<open>rx\<close>, so a statement about this function holds for every engine.
\<close>

definition regexp_replace_gi ::
    "(string \<Rightarrow> string \<Rightarrow> string js_result) \<Rightarrow> string \<Rightarrow> string \<Rightarrow> string js_result" where
  "regexp_replace_gi rx pattern text =
     (case literal_group pattern of
        Some t \<Rightarrow> Returns (replace_literal t text)
      | None \<Rightarrow> rx pattern text)"

definition highlightSearchTerm ::
    "(string \<Rightarrow> string \<Rightarrow> string js_result) \<Rightarrow> string \<Rightarrow> string \<Rightarrow> string js_result" where
  "highlightSearchTerm rx text searchTerm =
     (if \<not> truthy (trim searchTerm) then Returns text
      else regexp_replace_gi rx (''('' @ searchTerm @ '')'') text)"

text \<open>
  The message body of \<open>MessageItem\<close>, lines 177-225: for the type \<open>text\<close> a
  \<open>ReactMarkdown\<close> element whose child, the text handed to the markdown parser, is
  \<^verbatim>\<open>searchQuery ? highlightSearchTerm(message.content, searchQuery) : message.content\<close>
  and for any other type the text \<open>Unsupported message type: {message.messageType}\<close>.
\<close>

datatype body_view = MarkdownContent string | UnsupportedType string

definition MessageItem_body ::
    "(string \<Rightarrow> string \<Rightarrow> string js_result) \<Rightarrow> Message \<Rightarrow> string \<Rightarrow> body_view js_result" where
  "MessageItem_body rx message searchQuery =
     (if messageType message = ''text''
      then (case (if truthy searchQuery
                  then highlightSearchTerm rx (content message) searchQuery
                  else Returns (content message)) of
              Returns children \<Rightarrow> Returns (MarkdownContent children)
            | Throws \<Rightarrow> Throws)
      else Returns (UnsupportedType (''Unsupported message type: '' @ messageType message)))"

section \<open>The message list as displayed\<close>

text \<open>
  \<open>MessageList\<close>, lines 36-79: the two empty states, or one \<open>MessageItem\<close> per
  filtered message with its grouping decision.
\<close>

record item =
  item_message :: Message
  item_showAvatar :: bool
  item_body :: "body_view js_result"

datatype list_view =
    NoMessagesFound string
  | BeginningOfConversation
  | Feed "item list"

definition MessageList ::
    "(string \<Rightarrow> string \<Rightarrow> string js_result) \<Rightarrow> Message list \<Rightarrow> string \<Rightarrow> list_view" where
  "MessageList rx messages searchQuery =
     (let fm = filteredMessages messages searchQuery
      in if length fm = 0
         then (if truthy (trim searchQuery) then NoMessagesFound searchQuery
               else BeginningOfConversation)
         else Feed (map (\<lambda>index.
                      \<lparr>item_message = fm ! index,
                       item_showAvatar = showAvatar fm index,
                       item_body = MessageItem_body rx (fm ! index) searchQuery\<rparr>)
                    [0..<length fm]))"

section \<open>Deleting a message\<close>

text \<open>
  \<open>ChatArea.tsx\<close>, lines 112-114:
  \<^verbatim>\<open>
  const handleMessageDeleted = (messageId: string) => {
    setMessages(prev => prev.filter(msg => msg.id !== messageId))
  }
  \<close>
\<close>

definition handleMessageDeleted :: "string \<Rightarrow> Message list \<Rightarrow> Message list" where
  "handleMessageDeleted messageId prev = filter (\<lambda>msg. msgId msg \<noteq> messageId) prev"

text \<open>
  The state \<open>confirmDelete\<close> touches: the message list of \<open>ChatArea\<close>, the two flags of
  the \<open>MessageItem\<close> and the notifications shown through \<open>toast\<close>, oldest first.
\<close>

record toast =
  title :: string
  description :: string
  variant :: "string option"

record delete_state =
  messages :: "Message list"
  showDeleteDialog :: bool
  isDeleting :: bool
  toasts :: "toast list"

text \<open>The awaited \<open>blink.db.messages.delete(message.id)\<close> resolves or rejects.\<close>

datatype remote_outcome = Resolved | Rejected

text \<open>
  \<open>MessageItem\<close>, lines 113-133. \<open>onMessageDeleted\<close> is an optional property; \<open>ChatArea\<close>
  passes \<open>handleMessageDeleted\<close> through \<open>MessageList\<close>.
  \<^verbatim>\<open>
  const confirmDelete = async () => {
    setIsDeleting(true)
    try {
      await blink.db.messages.delete(message.id)
      toast({ title: 'Message deleted', description: 'The message has been deleted successfully.' })
      onMessageDeleted?.(message.id)
      setShowDeleteDialog(false)
    } catch (error) {
      console.error('Error deleting message:', error)
      toast({ title: 'Error', description: 'Failed to delete message. Please try again.',
              variant: 'destructive' })
    } finally {
      setIsDeleting(false)
    }
  }
  \<close>
\<close>

definition deleted_toast :: toast where
  "deleted_toast =
     \<lparr>title = ''Message deleted'',
      description = ''The message has been deleted successfully.'',
      variant = None\<rparr>"

definition error_toast :: toast where
  "error_toast =
     \<lparr>title = ''Error'',
      description = ''Failed to delete message. Please try again.'',
      variant = Some ''destructive''\<rparr>"

definition confirmDelete ::
    "remote_outcome \<Rightarrow> (string \<Rightarrow> Message list \<Rightarrow> Message list) option \<Rightarrow> Message
       \<Rightarrow> delete_state \<Rightarrow> delete_state" where
  "confirmDelete outcome onMessageDeleted message st =
     (let st1 = st\<lparr>isDeleting := True\<rparr>;
          st2 = (case outcome of
                   Resolved \<Rightarrow>
                     (let a = st1\<lparr>toasts := toasts st1 @ [deleted_toast]\<rparr>;
                          b = (case onMessageDeleted of
                                 None \<Rightarrow> a
                               | Some f \<Rightarrow> a\<lparr>messages := f (msgId message) (messages a)\<rparr>)
                      in b\<lparr>showDeleteDialog := False\<rparr>)
                 | Rejected \<Rightarrow> st1\<lparr>toasts := toasts st1 @ [error_toast]\<rparr>)
      in st2\<lparr>isDeleting := False\<rparr>)"

section \<open>The composer\<close>

text \<open>
  The state of \<open>MessageInput\<close>: the draft \<open>message\<close> and the two flags. \<open>sent\<close> records
  the calls of the property \<open>onSendMessage\<close>, oldest first, each with its argument.
\<close>

record composer =
  message :: string
  isPreviewMode :: bool
  isExpanded :: bool
  sent :: "string list"

text \<open>
  \<open>MessageInput.tsx\<close>, lines 46-53:
  \<^verbatim>\<open>
  const handleSend = () => {
    if (!message.trim()) return
    onSendMessage(message.trim())
    setMessage('')
    setIsPreviewMode(false)
    setIsExpanded(false)
  }
  \<close>
\<close>

definition handleSend :: "composer \<Rightarrow> composer" where
  "handleSend st =
     (if \<not> truthy (trim (message st)) then st
      else st\<lparr>sent := sent st @ [trim (message st)],
              message := [],
              isPreviewMode := False,
              isExpanded := False\<rparr>)"

text \<open>The preview button, line 166: \<^verbatim>\<open>onClick={() => setIsPreviewMode(!isPreviewMode)}\<close>.\<close>

definition togglePreview :: "composer \<Rightarrow> composer" where
  "togglePreview st = st\<lparr>isPreviewMode := \<not> isPreviewMode st\<rparr>"

section \<open>Example messages\<close>

text \<open>
  A text message as \<open>handleSendMessage\<close> of \<open>ChatArea.tsx\<close> creates it, with the given
  identifier, author, body and creation time.
\<close>

definition text_message :: "string \<Rightarrow> string \<Rightarrow> string \<Rightarrow> int \<Rightarrow> Message" where
  "text_message i u body t =
     \<lparr>msgId = i, channelId = ''c1'', userId = u, content = body, messageType = ''text'',
      threadId = None, replyCount = 0, createdAt = Some t, updatedAt = []\<rparr>"

text \<open>An engine that rejects every pattern source it is asked about.\<close>

definition rejecting_engine :: "string \<Rightarrow> string \<Rightarrow> string js_result" where
  "rejecting_engine pattern text = Throws"

section \<open>What the specification calls highlighting\<close>

text \<open>
  The body with the occurrences of the term wrapped, found from the left without
  overlap: a body without an occurrence is left as it is; otherwise the body splits into
  the text before the first occurrence (no occurrence of the term ends before that
  occurrence ends), the occurrence itself, which is wrapped between the two tags, and
  the rest, which is treated in the same way.
\<close>

inductive marked :: "string \<Rightarrow> string \<Rightarrow> string \<Rightarrow> bool" for t :: string where
  none: "\<not> ci_substring t body \<Longrightarrow> marked t body body"
| first: "list_all2 same_letter occ t \<Longrightarrow> \<not> ci_substring t (pre @ butlast occ) \<Longrightarrow>
          marked t post out \<Longrightarrow>
          marked t (pre @ occ @ post) (pre @ mark_open @ occ @ mark_close @ out)"

text \<open>
  The lower-case code unit that belongs to a canonical form; used to compare the two
  notions of case-insensitivity, that of \<open>toLowerCase\<close> and that of the flag \<open>i\<close>.
\<close>

definition uncanonicalize :: "nat \<Rightarrow> nat" where
  "uncanonicalize x =
     (if (65 \<le> x \<and> x \<le> 90) \<or> (192 \<le> x \<and> x \<le> 222 \<and> x \<noteq> 215) then x + 32
      else if x = 376 then 255 else if x = 924 then 181 else x)"

text \<open>A message of a type other than \<open>text\<close>.\<close>

definition typed_message :: "string \<Rightarrow> string \<Rightarrow> Message" where
  "typed_message ty body =
     \<lparr>msgId = ''m9'', channelId = ''c1'', userId = ''u1'', content = body, messageType = ty,
      threadId = None, replyCount = 0, createdAt = Some 0, updatedAt = []\<rparr>"

section \<open>Workspaces and channels\<close>

text \<open>
  The interfaces \<open>User\<close>, \<open>Group\<close> and \<open>Channel\<close> of \<open>App.tsx\<close>, and the membership
  record \<open>loadGroups\<close> creates. Field names carry the record's initial (\<open>g_id\<close> for the
  \<open>id\<close> of a group). The time stamps \<open>createdAt\<close> and \<open>joinedAt\<close> are set by the data
  store and are kept as epoch values.
\<close>

record User =
  u_id :: string
  u_email :: string
  u_displayName :: "string option"

record Group =
  g_id :: string
  g_name :: string
  g_description :: "string option"
  g_createdBy :: string
  g_createdAt :: int

record GroupMember =
  gm_id :: string
  gm_groupId :: string
  gm_userId :: string
  gm_role :: string
  gm_joinedAt :: int

record Channel =
  c_id :: string
  c_groupId :: string
  c_name :: string
  c_description :: "string option"
  c_isPrivate :: bool
  c_createdBy :: string
  c_createdAt :: int

text \<open>
  Modelled from the spec: the Remote Data Client, whose module \<open>@/blink/client\<close> is not
  among the sources. The specification (section 6) gives it the collections for
  workspaces, workspace memberships and channels, with
  \<open>list(collection, {where, orderBy, limit})\<close> returning an ordered sequence of records
  and \<open>create(collection, record)\<close> returning the created record. A collection is the
  list of its records in the order of creation.
\<close>

record remote_db =
  db_groups :: "Group list"
  db_groupMembers :: "GroupMember list"
  db_channels :: "Channel list"

text \<open>
  Modelled from the spec: \<open>groupMembers.list({where: {userId}, orderBy: {joinedAt: 'desc'}})\<close>,
  the memberships of one user, latest first.
\<close>

definition groupMembers_list :: "remote_db \<Rightarrow> string \<Rightarrow> GroupMember list" where
  "groupMembers_list db uid =
     sort_key (\<lambda>gm. - gm_joinedAt gm) (filter (\<lambda>gm. gm_userId gm = uid) (db_groupMembers db))"

text \<open>
  Modelled from the spec: \<open>groups.list({where: {id}, limit: 1})\<close>, at most one group with
  the identifier.
\<close>

definition groups_list :: "remote_db \<Rightarrow> string \<Rightarrow> Group list" where
  "groups_list db gid = take 1 (filter (\<lambda>g. g_id g = gid) (db_groups db))"

text \<open>
  Modelled from the spec: the three \<open>create\<close> calls. The store completes the record with
  its time stamp, appends it to the collection and returns it.
\<close>

definition groups_create ::
    "remote_db \<Rightarrow> int \<Rightarrow> string \<Rightarrow> string \<Rightarrow> string \<Rightarrow> string \<Rightarrow> Group \<times> remote_db" where
  "groups_create db ts i n d creator =
     (let created = \<lparr>g_id = i, g_name = n, g_description = Some d, g_createdBy = creator,
                      g_createdAt = ts\<rparr>
      in (created, db\<lparr>db_groups := db_groups db @ [created]\<rparr>))"

definition groupMembers_create ::
    "remote_db \<Rightarrow> int \<Rightarrow> string \<Rightarrow> string \<Rightarrow> string \<Rightarrow> string \<Rightarrow> GroupMember \<times> remote_db" where
  "groupMembers_create db ts i gid uid r =
     (let created = \<lparr>gm_id = i, gm_groupId = gid, gm_userId = uid, gm_role = r,
                      gm_joinedAt = ts\<rparr>
      in (created, db\<lparr>db_groupMembers := db_groupMembers db @ [created]\<rparr>))"

definition channels_create ::
    "remote_db \<Rightarrow> int \<Rightarrow> string \<Rightarrow> string \<Rightarrow> string \<Rightarrow> string \<Rightarrow> bool \<Rightarrow> string
       \<Rightarrow> Channel \<times> remote_db" where
  "channels_create db ts i gid n d p creator =
     (let created = \<lparr>c_id = i, c_groupId = gid, c_name = n, c_description = Some d,
                      c_isPrivate = p, c_createdBy = creator, c_createdAt = ts\<rparr>
      in (created, db\<lparr>db_channels := db_channels db @ [created]\<rparr>))"

text \<open>
  What \<open>loadGroups\<close> does not decide: which awaited calls reject, the store's time stamp
  for a record it creates, and the reading of \<open>Date.now()\<close> that goes into the
  identifier passed to a \<open>create\<close> call.
\<close>

datatype remote_call =
    ListGroupMembers
  | ListGroups string
  | CreateGroup
  | CreateGroupMember
  | CreateChannel

record env =
  rejects :: "remote_call \<Rightarrow> bool"
  server_time :: "remote_call \<Rightarrow> int"
  date_now :: "remote_call \<Rightarrow> nat"

text \<open>The decimal digits of a number, as a template literal prints \<open>Date.now()\<close>.\<close>

definition digit :: "nat \<Rightarrow> char" where
  "digit d = ''0123456789'' ! d"

fun decimal :: "nat \<Rightarrow> string" where
  "decimal n = (if n < 10 then [digit n] else decimal (n div 10) @ [digit (n mod 10)])"

declare decimal.simps [simp del]

text \<open>The state of \<open>App\<close>.\<close>

record app =
  user :: "User option"
  loading :: bool
  groups :: "Group list"
  channels :: "Channel list"
  activeGroup :: "string option"
  activeChannel :: "string option"
  isAIOpen :: bool

text \<open>\<open>!x\<close> for a value that is a string or \<open>null\<close>.\<close>

definition falsy :: "string option \<Rightarrow> bool" where
  "falsy x = (case x of None \<Rightarrow> True | Some s \<Rightarrow> \<not> truthy s)"

text \<open>
  \<open>App.tsx\<close>, lines 55-125, \<open>loadGroups\<close> for the signed-in user \<open>u\<close>. A rejected call
  inside the outer \<open>try\<close> ends the function (the \<open>catch\<close> only logs); what was created
  before stays created. A rejected \<open>groups.list\<close> inside the loop skips that group.
  The array sort is stable and orders by \<open>createdAt\<close>, latest first.
\<close>

definition loadGroups :: "env \<Rightarrow> User \<Rightarrow> remote_db \<Rightarrow> app \<Rightarrow> remote_db \<times> app" where
  "loadGroups e u db st =
     (if rejects e ListGroupMembers then (db, st)
      else
        let userGroups = groupMembers_list db (u_id u)
        in if length userGroups > 0
           then
             (let groupIds = map gm_groupId userGroups;
                  groupsData = concat (map (\<lambda>groupId.
                      if rejects e (ListGroups groupId) then []
                      else (let group = groups_list db groupId
                            in if length group > 0 then [hd group] else []))
                    groupIds);
                  sorted = sort_key (\<lambda>g. - g_createdAt g) groupsData;
                  st1 = st\<lparr>groups := sorted\<rparr>
              in (db, if falsy (activeGroup st) \<and> length sorted > 0
                      then st1\<lparr>activeGroup := Some (g_id (hd sorted))\<rparr>
                      else st1))
           else if rejects e CreateGroup then (db, st)
           else
             (let (defaultGroup, db1) =
                    groups_create db (server_time e CreateGroup)
                      (''group_'' @ decimal (date_now e CreateGroup))
                      ''General'' ''Default workspace'' (u_id u)
              in if rejects e CreateGroupMember then (db1, st)
                 else
                   (let (member, db2) =
                          groupMembers_create db1 (server_time e CreateGroupMember)
                            (''member_'' @ decimal (date_now e CreateGroupMember))
                            (g_id defaultGroup) (u_id u) ''admin''
                    in if rejects e CreateChannel then (db2, st)
                       else
                         (let (defaultChannel, db3) =
                                channels_create db2 (server_time e CreateChannel)
                                  (''channel_'' @ decimal (date_now e CreateChannel))
                                  (g_id defaultGroup) ''general'' ''General discussion'' False
                                  (u_id u)
                          in (db3, st\<lparr>groups := [defaultGroup],
                                       channels := [defaultChannel],
                                       activeGroup := Some (g_id defaultGroup),
                                       activeChannel := Some (c_id defaultChannel)\<rparr>)))))"

text \<open>
  The effect around it, lines 52-128: \<^verbatim>\<open>if (!user?.id) return\<close>, then \<open>loadGroups()\<close>.
  Its dependencies are \<^verbatim>\<open>[user?.id, activeGroup]\<close>: it runs again after a render in which one
  of the two has changed.
\<close>

definition loadGroups_effect :: "env \<Rightarrow> remote_db \<Rightarrow> app \<Rightarrow> remote_db \<times> app" where
  "loadGroups_effect e db st =
     (case user st of
        None \<Rightarrow> (db, st)
      | Some u \<Rightarrow> if \<not> truthy (u_id u) then (db, st) else loadGroups e u db st)"

definition loadGroups_deps :: "app \<Rightarrow> string option \<times> string option" where
  "loadGroups_deps st = (map_option u_id (user st), activeGroup st)"

text \<open>
  One transition of the session: the effect runs, and runs once more (with its own
  outcomes of the remote calls) when the first run has changed a dependency.
\<close>

definition session :: "env \<Rightarrow> env \<Rightarrow> remote_db \<Rightarrow> app \<Rightarrow> remote_db \<times> app" where
  "session e e2 db st =
     (let (db1, st1) = loadGroups_effect e db st
      in if loadGroups_deps st1 = loadGroups_deps st then (db1, st1)
         else loadGroups_effect e2 db1 st1)"

text \<open>A new user, an empty store, and calls that all resolve.\<close>

definition new_user :: User where
  "new_user = \<lparr>u_id = ''usr_1'', u_email = ''a@example.org'', u_displayName = None\<rparr>"

definition empty_db :: remote_db where
  "empty_db = \<lparr>db_groups = [], db_groupMembers = [], db_channels = []\<rparr>"

definition signed_in :: app where
  "signed_in = \<lparr>user = Some new_user, loading = False, groups = [], channels = [],
                 activeGroup = None, activeChannel = None, isAIOpen = False\<rparr>"

definition all_resolve :: env where
  "all_resolve = \<lparr>rejects = (\<lambda>c. False), server_time = (\<lambda>c. 1700000000000),
                   date_now = (\<lambda>c. 1700000000000)\<rparr>"

text \<open>The same, except that \<open>groupMembers.create\<close> rejects.\<close>

definition member_create_rejects :: env where
  "member_create_rejects = \<lparr>rejects = (\<lambda>c. c = CreateGroupMember),
                             server_time = (\<lambda>c. 1700000000000),
                             date_now = (\<lambda>c. 1700000000000)\<rparr>"


section \<open>Facts about the string functions\<close>

lemma includes_str_sublist: "includes_str s t = sublist t s"
proof (induction s)
  case Nil
  then show ?case by auto
next
  case (Cons c s)
  have "prefix t (c # s) = (take (length t) (c # s) = t)"
    by (metis prefix_def append_eq_conv_conj append_take_drop_id)
  with Cons show ?case
    by (simp add: sublist_Cons_right del: take_Suc_Cons)
qed

lemma all_dropWhile: "(\<forall>x\<in>set (dropWhile P xs). P x) \<longleftrightarrow> (\<forall>x\<in>set xs. P x)"
  by (induction xs) auto

lemma trim_empty_iff: "trim s = [] \<longleftrightarrow> blank s"
  by (simp add: trim_def blank_def dropWhile_eq_Nil_conv all_dropWhile list_all_iff)

lemma of_char_toLowerCase_char:
  "(of_char (toLowerCase_char c) :: nat) =
     (if is_upper c then of_char c + 32 else of_char c)"
  by (auto simp: toLowerCase_char_def is_upper_def Let_def)

lemma toLowerCase_char_eq_iff:
  "toLowerCase_char a = toLowerCase_char b \<longleftrightarrow> same_letter a b"
proof -
  have "toLowerCase_char a = toLowerCase_char b \<longleftrightarrow>
        (of_char (toLowerCase_char a) :: nat) = of_char (toLowerCase_char b)"
    by simp
  also have "\<dots> \<longleftrightarrow> same_letter a b"
    unfolding of_char_toLowerCase_char same_letter_def
    using of_char_eq_iff [of a b, where ?'a = nat]
    by (auto simp: is_upper_def Let_def simp del: of_char_eq_iff)
  finally show ?thesis .
qed

lemma toLowerCase_eq_iff:
  "toLowerCase xs = toLowerCase ys \<longleftrightarrow> list_all2 same_letter xs ys"
  unfolding toLowerCase_def
  by (induction xs arbitrary: ys) (auto simp: toLowerCase_char_eq_iff list_all2_Cons1 map_eq_Cons_conv Cons_eq_map_conv)

lemma includes_toLowerCase_iff:
  "includes_str (toLowerCase body) (toLowerCase q) \<longleftrightarrow> ci_substring q body"
proof
  assume "includes_str (toLowerCase body) (toLowerCase q)"
  then obtain ps ss where e: "map toLowerCase_char body = ps @ map toLowerCase_char q @ ss"
    by (auto simp: includes_str_sublist sublist_def toLowerCase_def)
  define pre where "pre = take (length ps) body"
  define occ where "occ = take (length q) (drop (length ps) body)"
  define post where "post = drop (length q) (drop (length ps) body)"
  have b: "body = pre @ occ @ post"
    unfolding pre_def occ_def post_def by (simp only: append_take_drop_id)
  have "map toLowerCase_char occ = take (length q) (drop (length ps) (map toLowerCase_char body))"
    by (simp add: occ_def take_map drop_map)
  also have "\<dots> = map toLowerCase_char q"
    by (simp add: e)
  finally have "list_all2 same_letter occ q"
    using toLowerCase_eq_iff by (simp add: toLowerCase_def)
  with b show "ci_substring q body"
    unfolding ci_substring_def by blast
next
  assume "ci_substring q body"
  then obtain pre occ post where b: "body = pre @ occ @ post" and l: "list_all2 same_letter occ q"
    unfolding ci_substring_def by blast
  from l have "toLowerCase occ = toLowerCase q"
    by (simp add: toLowerCase_eq_iff)
  with b have "toLowerCase body = toLowerCase pre @ toLowerCase q @ toLowerCase post"
    by (simp add: toLowerCase_def)
  then show "includes_str (toLowerCase body) (toLowerCase q)"
    unfolding includes_str_sublist sublist_def by blast
qed



section \<open>The filter\<close>

lemma filteredMessages_blank: "blank q \<Longrightarrow> filteredMessages msgs q = msgs"
  by (simp add: filteredMessages_def truthy_def trim_empty_iff)

lemma filteredMessages_match:
  "\<not> blank q \<Longrightarrow> filteredMessages msgs q = filter (\<lambda>m. ci_substring q (content m)) msgs"
  by (simp add: filteredMessages_def truthy_def trim_empty_iff includes_toLowerCase_iff)

lemma filteredMessages_length: "length (filteredMessages msgs q) \<le> length msgs"
  by (simp add: filteredMessages_def)

text \<open>
  C3, as the code has it. A blank filter text (empty or white space only) passes every
  message. For a filter text that is not blank the filtered list is exactly the messages
  whose body contains the filter text as a case-insensitive substring. In both cases the
  filtered list is a subsequence of the input in the input's order and is no longer than
  the input; it is strictly shorter when the filter text is not blank and some message
  fails the match.
\<close>

theorem filteredMessages_subsequence:
  "(blank q \<longrightarrow> filteredMessages msgs q = msgs)
   \<and> (\<not> blank q \<longrightarrow>
        filteredMessages msgs q = filter (\<lambda>m. ci_substring q (content m)) msgs)
   \<and> subseq (filteredMessages msgs q) msgs
   \<and> length (filteredMessages msgs q) \<le> length msgs
   \<and> (\<not> blank q \<and> (\<exists>m \<in> set msgs. \<not> ci_substring q (content m))
        \<longrightarrow> length (filteredMessages msgs q) < length msgs)"
proof -
  have "length (filteredMessages msgs q) < length msgs"
    if "\<not> blank q" and "\<exists>m \<in> set msgs. \<not> ci_substring q (content m)"
    using that by (auto simp: filteredMessages_match intro: length_filter_less)
  moreover have "subseq (filteredMessages msgs q) msgs"
    by (simp add: filteredMessages_def)
  ultimately show ?thesis
    by (simp add: filteredMessages_blank filteredMessages_match filteredMessages_length)
qed

theorem filteredMessages_subsequence_witness:
  "filteredMessages [text_message ''m1'' ''u1'' ''say hello world'' 0,
                     text_message ''m2'' ''u2'' ''bye'' 1] ''  ''
     = [text_message ''m1'' ''u1'' ''say hello world'' 0, text_message ''m2'' ''u2'' ''bye'' 1]
   \<and> filteredMessages [text_message ''m1'' ''u1'' ''say hello world'' 0,
                       text_message ''m2'' ''u2'' ''bye'' 1] ''Hello''
     = [text_message ''m1'' ''u1'' ''say hello world'' 0]
   \<and> length (filteredMessages [text_message ''m1'' ''u1'' ''say hello world'' 0,
                               text_message ''m2'' ''u2'' ''bye'' 1] ''Hello'') < 2"
proof -
  let ?ms = "[text_message ''m1'' ''u1'' ''say hello world'' 0, text_message ''m2'' ''u2'' ''bye'' 1]"
  have b1: "blank ''  ''" by code_simp
  have b2: "\<not> blank ''Hello''" by code_simp
  have c1: "ci_substring ''Hello'' (content (text_message ''m1'' ''u1'' ''say hello world'' 0))"
    unfolding includes_toLowerCase_iff [symmetric] by code_simp
  have c2: "\<not> ci_substring ''Hello'' (content (text_message ''m2'' ''u2'' ''bye'' 1))"
    unfolding includes_toLowerCase_iff [symmetric] by code_simp
  from filteredMessages_subsequence [of "''  ''" ?ms] b1
  have "filteredMessages ?ms ''  '' = ?ms" by blast
  moreover from filteredMessages_subsequence [of "''Hello''" ?ms] b2 c2
  have "filteredMessages ?ms ''Hello'' = filter (\<lambda>m. ci_substring ''Hello'' (content m)) ?ms"
    and "length (filteredMessages ?ms ''Hello'') < length ?ms"
    by simp_all
  ultimately show ?thesis using c1 c2 by simp
qed

text \<open>
  C3 as stated fails for a filter text of one space: the body \<open>a\<close> does not contain a
  space, yet the message passes, so the filtered list is not the list of matching
  messages and is not shorter than the input.
\<close>

theorem filteredMessages_blank_query_counterexample:
  "\<not> ci_substring '' '' (content (text_message ''m1'' ''u1'' ''a'' 0))
   \<and> filteredMessages [text_message ''m1'' ''u1'' ''a'' 0] '' ''
       \<noteq> filter (\<lambda>m. ci_substring '' '' (content m)) [text_message ''m1'' ''u1'' ''a'' 0]
   \<and> \<not> length (filteredMessages [text_message ''m1'' ''u1'' ''a'' 0] '' '')
         < length [text_message ''m1'' ''u1'' ''a'' 0]"
proof -
  have b: "blank '' ''" by code_simp
  have c: "\<not> ci_substring '' '' (content (text_message ''m1'' ''u1'' ''a'' 0))"
    unfolding includes_toLowerCase_iff [symmetric] by code_simp
  show ?thesis using c by (simp add: filteredMessages_blank [OF b])
qed

section \<open>The grouping decision\<close>

text \<open>
  C1, as the code has it. For two consecutive displayed messages of the same author
  whose creation times both parse, the second message's \<open>showAvatar\<close> is true exactly
  when the second was created more than 300000 ms after the first: it is false for every
  gap up to and including 300000 ms.
\<close>

theorem showAvatar_same_author_gap:
  assumes "Suc i < length (filteredMessages msgs q)"
    and "userId (filteredMessages msgs q ! i) = userId (filteredMessages msgs q ! Suc i)"
    and "createdAt (filteredMessages msgs q ! i) = Some a"
    and "createdAt (filteredMessages msgs q ! Suc i) = Some b"
  shows "showAvatar (filteredMessages msgs q) (Suc i) \<longleftrightarrow> b - a > 300000"
  using assms by (simp add: showAvatar_def gap_exceeds_def)

theorem showAvatar_same_author_gap_witness:
  "showAvatar (filteredMessages
      [text_message ''m1'' ''u1'' ''a'' 0, text_message ''m2'' ''u1'' ''b'' 300001] []) (Suc 0)
   \<and> \<not> showAvatar (filteredMessages
      [text_message ''m1'' ''u1'' ''a'' 0, text_message ''m2'' ''u1'' ''b'' 299999] []) (Suc 0)"
proof -
  have "showAvatar (filteredMessages
          [text_message ''m1'' ''u1'' ''a'' 0, text_message ''m2'' ''u1'' ''b'' 300001] []) (Suc 0)
        \<longleftrightarrow> (300001::int) - 0 > 300000"
    by (rule showAvatar_same_author_gap)
       (simp_all add: filteredMessages_blank blank_def text_message_def)
  moreover have "showAvatar (filteredMessages
          [text_message ''m1'' ''u1'' ''a'' 0, text_message ''m2'' ''u1'' ''b'' 299999] []) (Suc 0)
        \<longleftrightarrow> (299999::int) - 0 > 300000"
    by (rule showAvatar_same_author_gap)
       (simp_all add: filteredMessages_blank blank_def text_message_def)
  ultimately show ?thesis by simp
qed

text \<open>
  C1 as stated fails at a gap of exactly 300000 ms: two messages of the same author
  created at 0 and at 300000 are both displayed, and the second has
  \<open>showAvatar = false\<close>.
\<close>

theorem showAvatar_gap_300000_counterexample:
  "userId (text_message ''m1'' ''u1'' ''a'' 0) = userId (text_message ''m2'' ''u1'' ''b'' 300000)
   \<and> createdAt (text_message ''m1'' ''u1'' ''a'' 0) = Some 0
   \<and> createdAt (text_message ''m2'' ''u1'' ''b'' 300000) = Some 300000
   \<and> filteredMessages [text_message ''m1'' ''u1'' ''a'' 0, text_message ''m2'' ''u1'' ''b'' 300000] []
       = [text_message ''m1'' ''u1'' ''a'' 0, text_message ''m2'' ''u1'' ''b'' 300000]
   \<and> \<not> showAvatar (filteredMessages
         [text_message ''m1'' ''u1'' ''a'' 0, text_message ''m2'' ''u1'' ''b'' 300000] []) (Suc 0)"
  by (simp add: filteredMessages_blank blank_def showAvatar_def gap_exceeds_def text_message_def)

lemma MessageList_Feed:
  assumes "MessageList rx msgs q = Feed items"
  shows "items = map (\<lambda>index.
                   \<lparr>item_message = filteredMessages msgs q ! index,
                    item_showAvatar = showAvatar (filteredMessages msgs q) index,
                    item_body = MessageItem_body rx (filteredMessages msgs q ! index) q\<rparr>)
                 [0..<length (filteredMessages msgs q)]"
  using assms by (simp add: MessageList_def Let_def split: if_splits)

lemma MessageList_nonempty:
  assumes "filteredMessages msgs q \<noteq> []"
  shows "MessageList rx msgs q
         = Feed (map (\<lambda>index.
                   \<lparr>item_message = filteredMessages msgs q ! index,
                    item_showAvatar = showAvatar (filteredMessages msgs q) index,
                    item_body = MessageItem_body rx (filteredMessages msgs q ! index) q\<rparr>)
                 [0..<length (filteredMessages msgs q)])"
  using assms by (simp add: MessageList_def Let_def)

text \<open>
  C2. The grouping decision of each displayed message is taken against its predecessor
  in the filtered list: the first message of the filtered list has \<open>showAvatar = true\<close>;
  a message whose predecessor in the filtered list has another author has
  \<open>showAvatar = true\<close>; every later message's decision is a function of that message and
  its predecessor in the filtered list only. Whenever the filtered list is not empty the
  message list displays a feed with one item per message of the filtered list, in its
  order, and the items carry these decisions: the first item shows the avatar, an item
  whose preceding item has another author shows it, and every later item's decision is
  determined by the messages of that item and of the item before it.
\<close>

theorem showAvatar_filtered_adjacency:
  "(filteredMessages msgs q \<noteq> [] \<longrightarrow> showAvatar (filteredMessages msgs q) 0)
   \<and> (\<forall>i. 0 < i \<and> i < length (filteredMessages msgs q)
            \<and> userId (filteredMessages msgs q ! (i - 1)) \<noteq> userId (filteredMessages msgs q ! i)
          \<longrightarrow> showAvatar (filteredMessages msgs q) i)
   \<and> (\<forall>i. 0 < i \<and> i < length (filteredMessages msgs q)
          \<longrightarrow> showAvatar (filteredMessages msgs q) i
               = (userId (filteredMessages msgs q ! (i - 1)) \<noteq> userId (filteredMessages msgs q ! i)
                  \<or> gap_exceeds (createdAt (filteredMessages msgs q ! i))
                                 (createdAt (filteredMessages msgs q ! (i - 1)))))
   \<and> (filteredMessages msgs q \<noteq> [] \<longrightarrow>
        (\<exists>items. MessageList rx msgs q = Feed items
           \<and> length items = length (filteredMessages msgs q)
           \<and> (\<forall>i < length (filteredMessages msgs q).
                 item_message (items ! i) = filteredMessages msgs q ! i
                 \<and> item_showAvatar (items ! i) = showAvatar (filteredMessages msgs q) i)
           \<and> item_showAvatar (items ! 0)
           \<and> (\<forall>i. 0 < i \<and> i < length items
                    \<and> userId (item_message (items ! (i - 1))) \<noteq> userId (item_message (items ! i))
                  \<longrightarrow> item_showAvatar (items ! i))
           \<and> (\<forall>i. 0 < i \<and> i < length items
                  \<longrightarrow> item_showAvatar (items ! i)
                       = (userId (item_message (items ! (i - 1))) \<noteq> userId (item_message (items ! i))
                          \<or> gap_exceeds (createdAt (item_message (items ! i)))
                                         (createdAt (item_message (items ! (i - 1))))))))"
proof -
  define fm where "fm = filteredMessages msgs q"
  define items where "items = map (\<lambda>index.
                   \<lparr>item_message = fm ! index,
                    item_showAvatar = showAvatar fm index,
                    item_body = MessageItem_body rx (fm ! index) q\<rparr>)
                 [0..<length fm]"
  have s0: "showAvatar fm 0"
    by (simp add: showAvatar_def)
  have si: "showAvatar fm i
        = (userId (fm ! (i - 1)) \<noteq> userId (fm ! i)
           \<or> gap_exceeds (createdAt (fm ! i)) (createdAt (fm ! (i - 1))))"
    if "0 < i" for i
    using that by (simp add: showAvatar_def Let_def)
  have len: "length items = length fm"
    by (simp add: items_def)
  have msg: "item_message (items ! i) = fm ! i" if "i < length fm" for i
    using that by (simp add: items_def)
  have av: "item_showAvatar (items ! i) = showAvatar fm i" if "i < length fm" for i
    using that by (simp add: items_def)
  have adj: "item_showAvatar (items ! i)
            = (userId (item_message (items ! (i - 1))) \<noteq> userId (item_message (items ! i))
               \<or> gap_exceeds (createdAt (item_message (items ! i)))
                              (createdAt (item_message (items ! (i - 1)))))"
    if "0 < i" and "i < length items" for i
  proof -
    from that len have i: "i < length fm" and p: "i - 1 < length fm"
      by arith+
    show ?thesis
      by (simp only: av [OF i] msg [OF i] msg [OF p] si [OF that(1)])
  qed
  have feed: "\<exists>items. MessageList rx msgs q = Feed items
           \<and> length items = length fm
           \<and> (\<forall>i < length fm.
                 item_message (items ! i) = fm ! i
                 \<and> item_showAvatar (items ! i) = showAvatar fm i)
           \<and> item_showAvatar (items ! 0)
           \<and> (\<forall>i. 0 < i \<and> i < length items
                    \<and> userId (item_message (items ! (i - 1))) \<noteq> userId (item_message (items ! i))
                  \<longrightarrow> item_showAvatar (items ! i))
           \<and> (\<forall>i. 0 < i \<and> i < length items
                  \<longrightarrow> item_showAvatar (items ! i)
                       = (userId (item_message (items ! (i - 1))) \<noteq> userId (item_message (items ! i))
                          \<or> gap_exceeds (createdAt (item_message (items ! i)))
                                         (createdAt (item_message (items ! (i - 1))))))"
    if ne: "fm \<noteq> []"
  proof -
    have l: "MessageList rx msgs q = Feed items"
      unfolding items_def fm_def using ne [unfolded fm_def] by (rule MessageList_nonempty)
    from ne have "0 < length fm" by simp
    then have a0: "item_showAvatar (items ! 0)"
      using av [of 0] s0 by simp
    have a1: "item_showAvatar (items ! i)"
      if "0 < i \<and> i < length items
          \<and> userId (item_message (items ! (i - 1))) \<noteq> userId (item_message (items ! i))" for i
      using that adj [of i] by blast
    from l len msg av a0 a1 adj show ?thesis
      by (intro exI [of _ items]) blast
  qed
  from s0 si feed show ?thesis
    unfolding fm_def by blast
qed

theorem showAvatar_filtered_adjacency_witness:
  "filteredMessages [text_message ''m1'' ''u1'' ''foo'' 0,
                     text_message ''m2'' ''u2'' ''bar'' 1,
                     text_message ''m3'' ''u2'' ''foo too'' 2] ''foo''
     = [text_message ''m1'' ''u1'' ''foo'' 0, text_message ''m3'' ''u2'' ''foo too'' 2]
   \<and> (\<exists>items. MessageList rejecting_engine
                  [text_message ''m1'' ''u1'' ''foo'' 0,
                   text_message ''m2'' ''u2'' ''bar'' 1,
                   text_message ''m3'' ''u2'' ''foo too'' 2] ''foo'' = Feed items
         \<and> map item_message items
             = [text_message ''m1'' ''u1'' ''foo'' 0, text_message ''m3'' ''u2'' ''foo too'' 2]
         \<and> map item_showAvatar items = [True, True])
   \<and> \<not> showAvatar [text_message ''m1'' ''u1'' ''foo'' 0,
                    text_message ''m2'' ''u2'' ''bar'' 1,
                    text_message ''m3'' ''u2'' ''foo too'' 2] 2"
proof -
  let ?ms = "[text_message ''m1'' ''u1'' ''foo'' 0, text_message ''m2'' ''u2'' ''bar'' 1,
              text_message ''m3'' ''u2'' ''foo too'' 2]"
  let ?fm = "[text_message ''m1'' ''u1'' ''foo'' 0, text_message ''m3'' ''u2'' ''foo too'' 2]"
  have f: "filteredMessages ?ms ''foo'' = ?fm" by code_simp
  have n: "\<not> showAvatar ?ms 2" by code_simp
  have u: "userId (?fm ! 0) \<noteq> userId (?fm ! 1)" by (simp add: text_message_def)
  have ne: "?fm \<noteq> []" by simp
  note t = showAvatar_filtered_adjacency [of ?ms "''foo''" rejecting_engine, unfolded f,
             THEN conjunct2, THEN conjunct2, THEN conjunct2, THEN mp, OF ne]
  from t obtain items where l: "MessageList rejecting_engine ?ms ''foo'' = Feed items"
    and len': "length items = length ?fm"
    and m: "\<forall>i < length ?fm. item_message (items ! i) = ?fm ! i
                \<and> item_showAvatar (items ! i) = showAvatar ?fm i"
    and a0: "item_showAvatar (items ! 0)"
    and a: "\<forall>i. 0 < i \<and> i < length items
                \<and> userId (item_message (items ! (i - 1))) \<noteq> userId (item_message (items ! i))
              \<longrightarrow> item_showAvatar (items ! i)"
    by blast
  from len' have len: "length items = 2"
    by simp
  from m [rule_format, of 0] have m0: "item_message (items ! 0) = ?fm ! 0"
    by simp
  from m [rule_format, of 1] have m1: "item_message (items ! 1) = ?fm ! 1"
    by simp
  have "0 < (1::nat) \<and> 1 < length items
        \<and> userId (item_message (items ! (1 - 1))) \<noteq> userId (item_message (items ! 1))"
    using len u m0 m1 by simp
  with a have a1: "item_showAvatar (items ! 1)"
    by blast
  from len obtain x xs where c1: "items = x # xs" and "length xs = 1"
    by (cases items) simp_all
  then obtain y where "xs = [y]"
    by (cases xs) simp_all
  with c1 have xy: "items = [x, y]"
    by simp
  from xy m0 m1 a0 a1 have r1: "map item_message items = ?fm"
    and r2: "map item_showAvatar items = [True, True]"
    by simp_all
  show ?thesis
  proof (intro conjI exI [of _ items])
    show "filteredMessages ?ms ''foo'' = ?fm" by (rule f)
    show "MessageList rejecting_engine ?ms ''foo'' = Feed items" by (rule l)
    show "map item_message items = ?fm" by (rule r1)
    show "map item_showAvatar items = [True, True]" by (rule r2)
    show "\<not> showAvatar ?ms 2" by (rule n)
  qed
qed


section \<open>Deleting a message\<close>

lemma handleMessageDeleted_one:
  "distinct (map msgId ms) \<Longrightarrow> i \<in> set (map msgId ms) \<Longrightarrow>
   Suc (length (handleMessageDeleted i ms)) = length ms"
  unfolding handleMessageDeleted_def
proof (induction ms)
  case Nil
  then show ?case by simp
next
  case (Cons m ms)
  show ?case
  proof (cases "msgId m = i")
    case True
    with Cons.prems have "\<forall>x \<in> set ms. msgId x \<noteq> i" by (auto simp: image_iff)
    then have "filter (\<lambda>msg. msgId msg \<noteq> i) ms = ms" by (simp add: filter_id_conv)
    with True show ?thesis by simp
  next
    case False
    with Cons show ?thesis by auto
  qed
qed

text \<open>
  C4. With the callback \<open>ChatArea\<close> passes, confirming the deletion of a message when the
  remote delete resolves leaves in the local list exactly the records with another
  identifier, in their order: a record of the list stays if and only if its identifier
  differs, and when identifiers are unique and the message is in the list the list
  loses exactly one record; the success notification is shown. When the remote delete
  rejects, the local list is unchanged, the dialog stays as it was and the error
  notification is shown.
\<close>

theorem confirmDelete_local_list:
  "messages (confirmDelete Resolved (Some handleMessageDeleted) m st)
     = filter (\<lambda>msg. msgId msg \<noteq> msgId m) (messages st)
   \<and> (\<forall>x \<in> set (messages st).
         x \<in> set (messages (confirmDelete Resolved (Some handleMessageDeleted) m st))
         \<longleftrightarrow> msgId x \<noteq> msgId m)
   \<and> (distinct (map msgId (messages st)) \<and> m \<in> set (messages st) \<longrightarrow>
         Suc (length (messages (confirmDelete Resolved (Some handleMessageDeleted) m st)))
           = length (messages st))
   \<and> toasts (confirmDelete Resolved (Some handleMessageDeleted) m st) = toasts st @ [deleted_toast]
   \<and> messages (confirmDelete Rejected (Some handleMessageDeleted) m st) = messages st
   \<and> toasts (confirmDelete Rejected (Some handleMessageDeleted) m st) = toasts st @ [error_toast]
   \<and> showDeleteDialog (confirmDelete Rejected (Some handleMessageDeleted) m st)
       = showDeleteDialog st"
proof -
  have m: "messages (confirmDelete Resolved (Some handleMessageDeleted) m st)
             = handleMessageDeleted (msgId m) (messages st)"
    by (simp add: confirmDelete_def Let_def)
  have "Suc (length (handleMessageDeleted (msgId m) (messages st))) = length (messages st)"
    if "distinct (map msgId (messages st))" and "m \<in> set (messages st)"
    using that by (intro handleMessageDeleted_one) auto
  moreover have "messages (confirmDelete Rejected (Some handleMessageDeleted) m st) = messages st"
    and "toasts (confirmDelete Rejected (Some handleMessageDeleted) m st) = toasts st @ [error_toast]"
    and "showDeleteDialog (confirmDelete Rejected (Some handleMessageDeleted) m st)
           = showDeleteDialog st"
    and "toasts (confirmDelete Resolved (Some handleMessageDeleted) m st)
           = toasts st @ [deleted_toast]"
    by (simp_all add: confirmDelete_def Let_def)
  ultimately show ?thesis
    unfolding m by (simp add: handleMessageDeleted_def)
qed

theorem confirmDelete_local_list_witness:
  "messages (confirmDelete Resolved (Some handleMessageDeleted) (text_message ''m1'' ''u1'' ''a'' 0)
      \<lparr>messages = [text_message ''m1'' ''u1'' ''a'' 0, text_message ''m2'' ''u1'' ''b'' 1],
       showDeleteDialog = True, isDeleting = False, toasts = []\<rparr>)
     = [text_message ''m2'' ''u1'' ''b'' 1]
   \<and> messages (confirmDelete Rejected (Some handleMessageDeleted) (text_message ''m1'' ''u1'' ''a'' 0)
      \<lparr>messages = [text_message ''m1'' ''u1'' ''a'' 0, text_message ''m2'' ''u1'' ''b'' 1],
       showDeleteDialog = True, isDeleting = False, toasts = []\<rparr>)
     = [text_message ''m1'' ''u1'' ''a'' 0, text_message ''m2'' ''u1'' ''b'' 1]
   \<and> toasts (confirmDelete Rejected (Some handleMessageDeleted) (text_message ''m1'' ''u1'' ''a'' 0)
      \<lparr>messages = [text_message ''m1'' ''u1'' ''a'' 0, text_message ''m2'' ''u1'' ''b'' 1],
       showDeleteDialog = True, isDeleting = False, toasts = []\<rparr>)
     = [error_toast]
   \<and> Suc (length (messages (confirmDelete Resolved (Some handleMessageDeleted)
        (text_message ''m1'' ''u1'' ''a'' 0)
        \<lparr>messages = [text_message ''m1'' ''u1'' ''a'' 0, text_message ''m2'' ''u1'' ''b'' 1],
         showDeleteDialog = True, isDeleting = False, toasts = []\<rparr>))) = 2"
  using confirmDelete_local_list
    [of "text_message ''m1'' ''u1'' ''a'' 0"
        "\<lparr>messages = [text_message ''m1'' ''u1'' ''a'' 0, text_message ''m2'' ''u1'' ''b'' 1],
          showDeleteDialog = True, isDeleting = False, toasts = []\<rparr>"]
  by (simp add: text_message_def)

section \<open>The composer\<close>

text \<open>
  C5. Submitting a draft that is empty after trimming changes nothing: the composer
  state, with the record of the calls of the send callback, is the same. Submitting a
  draft that is not empty after trimming calls the send callback once more, with the
  trimmed draft, clears the draft, turns the preview off and collapses the composer.
\<close>

theorem handleSend_trimmed:
  "(\<not> truthy (trim (message st)) \<longrightarrow> handleSend st = st)
   \<and> (truthy (trim (message st)) \<longrightarrow>
        sent (handleSend st) = sent st @ [trim (message st)]
        \<and> message (handleSend st) = []
        \<and> isPreviewMode (handleSend st) = False
        \<and> isExpanded (handleSend st) = False)"
  by (simp add: handleSend_def)

theorem handleSend_trimmed_witness:
  "handleSend \<lparr>message = ''   '', isPreviewMode = True, isExpanded = True, sent = []\<rparr>
     = \<lparr>message = ''   '', isPreviewMode = True, isExpanded = True, sent = []\<rparr>
   \<and> sent (handleSend \<lparr>message = ''  hi  '', isPreviewMode = True, isExpanded = True, sent = []\<rparr>)
       = [''hi'']
   \<and> message (handleSend \<lparr>message = ''  hi  '', isPreviewMode = True, isExpanded = True, sent = []\<rparr>)
       = []
   \<and> \<not> isPreviewMode (handleSend \<lparr>message = ''  hi  '', isPreviewMode = True, isExpanded = True, sent = []\<rparr>)
   \<and> \<not> isExpanded (handleSend \<lparr>message = ''  hi  '', isPreviewMode = True, isExpanded = True, sent = []\<rparr>)"
proof -
  have t1: "trim ''   '' = []" by code_simp
  have t2: "trim ''  hi  '' = ''hi''" by code_simp
  show ?thesis
    using handleSend_trimmed [of "\<lparr>message = ''   '', isPreviewMode = True, isExpanded = True, sent = []\<rparr>"]
          handleSend_trimmed [of "\<lparr>message = ''  hi  '', isPreviewMode = True, isExpanded = True, sent = []\<rparr>"]
    by (simp add: t1 t2 truthy_def)
qed

text \<open>
  C9. Toggling the preview any number of times leaves the draft, the expanded flag and
  the record of sent messages as they were; the preview flag is the original one after
  an even number of toggles and its negation after an odd number.
\<close>

theorem togglePreview_keeps_draft:
  "message ((togglePreview ^^ n) st) = message st
   \<and> isExpanded ((togglePreview ^^ n) st) = isExpanded st
   \<and> sent ((togglePreview ^^ n) st) = sent st
   \<and> isPreviewMode ((togglePreview ^^ n) st) = (isPreviewMode st = even n)"
  by (induction n) (auto simp: togglePreview_def)

theorem togglePreview_keeps_draft_witness:
  "message ((togglePreview ^^ 3)
      \<lparr>message = ''draft **text**'', isPreviewMode = False, isExpanded = True, sent = []\<rparr>)
     = ''draft **text**''
   \<and> isPreviewMode ((togglePreview ^^ 3)
      \<lparr>message = ''draft **text**'', isPreviewMode = False, isExpanded = True, sent = []\<rparr>)"
  using togglePreview_keeps_draft
    [of 3 "\<lparr>message = ''draft **text**'', isPreviewMode = False, isExpanded = True, sent = []\<rparr>"]
  by simp


section \<open>Highlighting the search term\<close>

lemma literal_group_wrap:
  "t \<noteq> [] \<Longrightarrow> list_all (\<lambda>c. \<not> is_syntax_char c) t \<Longrightarrow> literal_group (CHR ''('' # t @ '')'') = Some t"
  by (simp add: literal_group_def)

lemma canonicalize_toLowerCase_char: "canonicalize (toLowerCase_char c) = canonicalize c"
proof -
  have "(of_char c :: nat) < 256" by simp
  then show ?thesis
    unfolding canonicalize_def Let_def of_char_toLowerCase_char is_upper_def
    by (simp split: if_splits)
qed

lemma toLowerCase_char_canonicalize:
  "(of_char (toLowerCase_char c) :: nat) = uncanonicalize (canonicalize c)"
proof -
  define n where "n = (of_char c :: nat)"
  have b: "n < 256" by (simp add: n_def)
  consider (lower) "(97 \<le> n \<and> n \<le> 122) \<or> (224 \<le> n \<and> n \<le> 254 \<and> n \<noteq> 247)"
    | (y) "n = 255" | (mu) "n = 181"
    | (upper) "(65 \<le> n \<and> n \<le> 90) \<or> (192 \<le> n \<and> n \<le> 222 \<and> n \<noteq> 215)"
    | (other) "\<not> ((97 \<le> n \<and> n \<le> 122) \<or> (224 \<le> n \<and> n \<le> 254 \<and> n \<noteq> 247))"
        "n \<noteq> 255" "n \<noteq> 181"
        "\<not> ((65 \<le> n \<and> n \<le> 90) \<or> (192 \<le> n \<and> n \<le> 222 \<and> n \<noteq> 215))"
    by blast
  then have "uncanonicalize (if (97 \<le> n \<and> n \<le> 122) \<or> (224 \<le> n \<and> n \<le> 254 \<and> n \<noteq> 247) then n - 32
         else if n = 255 then 376 else if n = 181 then 924 else n)
       = (if (65 \<le> n \<and> n \<le> 90) \<or> (192 \<le> n \<and> n \<le> 222 \<and> n \<noteq> 215) then n + 32 else n)"
  proof cases
    case lower
    then have "(65 \<le> n - 32 \<and> n - 32 \<le> 90) \<or> (192 \<le> n - 32 \<and> n - 32 \<le> 222 \<and> n - 32 \<noteq> 215)"
      by arith
    moreover from lower have "\<not> ((65 \<le> n \<and> n \<le> 90) \<or> (192 \<le> n \<and> n \<le> 222 \<and> n \<noteq> 215))" "32 \<le> n"
      by arith+
    ultimately show ?thesis
      using lower by (simp only: uncanonicalize_def if_True if_False; simp)
  next
    case y
    then show ?thesis by (simp add: uncanonicalize_def)
  next
    case mu
    then show ?thesis by (simp add: uncanonicalize_def)
  next
    case upper
    then have "\<not> ((97 \<le> n \<and> n \<le> 122) \<or> (224 \<le> n \<and> n \<le> 254 \<and> n \<noteq> 247))" "n \<noteq> 255" "n \<noteq> 181"
      by arith+
    with upper show ?thesis
      by (simp only: uncanonicalize_def if_True if_False; simp)
  next
    case other
    with b have "n \<noteq> 376" "n \<noteq> 924" by simp_all
    with other show ?thesis
      by (simp only: uncanonicalize_def if_True if_False; simp)
  qed
  then show ?thesis
    unfolding canonicalize_def Let_def of_char_toLowerCase_char is_upper_def n_def
    by (rule sym)
qed

lemma canonicalize_eq_iff: "canonicalize a = canonicalize b \<longleftrightarrow> same_letter a b"
proof -
  have "canonicalize a = canonicalize b \<longleftrightarrow> toLowerCase_char a = toLowerCase_char b"
  proof
    assume "canonicalize a = canonicalize b"
    then have "(of_char (toLowerCase_char a) :: nat) = of_char (toLowerCase_char b)"
      by (simp only: toLowerCase_char_canonicalize)
    then show "toLowerCase_char a = toLowerCase_char b"
      by (simp only: of_char_eq_iff)
  next
    assume "toLowerCase_char a = toLowerCase_char b"
    then have "canonicalize (toLowerCase_char a) = canonicalize (toLowerCase_char b)"
      by simp
    then show "canonicalize a = canonicalize b"
      by (simp only: canonicalize_toLowerCase_char)
  qed
  then show ?thesis
    by (simp only: toLowerCase_char_eq_iff)
qed
lemma map_canonicalize_eq_iff:
  "map canonicalize xs = map canonicalize ys \<longleftrightarrow> toLowerCase xs = toLowerCase ys"
  unfolding toLowerCase_def
  by (induction xs arbitrary: ys)
     (auto simp: canonicalize_eq_iff toLowerCase_char_eq_iff map_eq_Cons_conv Cons_eq_map_conv)

lemma length_toLowerCase: "length (toLowerCase s) = length s"
  by (simp add: toLowerCase_def)

lemma matches_at_lower:
  "matches_at t x \<longleftrightarrow> take (length t) (toLowerCase x) = toLowerCase t"
proof
  assume "matches_at t x"
  then show "take (length t) (toLowerCase x) = toLowerCase t"
    by (simp add: matches_at_def map_canonicalize_eq_iff toLowerCase_def take_map)
next
  assume a: "take (length t) (toLowerCase x) = toLowerCase t"
  then have "length (take (length t) (toLowerCase x)) = length t"
    by (simp add: length_toLowerCase)
  then have "length t \<le> length x"
    by (simp add: length_toLowerCase)
  with a show "matches_at t x"
    by (simp add: matches_at_def map_canonicalize_eq_iff toLowerCase_def take_map)
qed

lemma ci_substring_Cons:
  "ci_substring t (c # s) \<longleftrightarrow> matches_at t (c # s) \<or> ci_substring t s"
proof -
  have "ci_substring t (c # s)
        \<longleftrightarrow> includes_str (toLowerCase_char c # toLowerCase s) (toLowerCase t)"
    by (simp add: includes_toLowerCase_iff [symmetric] toLowerCase_def)
  also have "\<dots> \<longleftrightarrow> take (length t) (toLowerCase (c # s)) = toLowerCase t
                      \<or> includes_str (toLowerCase s) (toLowerCase t)"
    by (simp add: length_toLowerCase toLowerCase_def del: take_Suc_Cons)
  finally show ?thesis
    by (simp only: matches_at_lower includes_toLowerCase_iff)
qed

lemma ci_substring_length: "ci_substring t x \<Longrightarrow> length t \<le> length x"
  by (auto simp: ci_substring_def dest: list_all2_lengthD)

lemma matches_at_append: "matches_at t x \<Longrightarrow> matches_at t (x @ y)"
  by (simp add: matches_at_def)

lemma matches_at_split:
  "matches_at t x \<Longrightarrow> list_all2 same_letter (take (length t) x) t"
  by (simp add: matches_at_def map_canonicalize_eq_iff toLowerCase_eq_iff)

lemma marked_Cons:
  assumes "marked t s out" and "\<not> matches_at t (c # s)" and "t \<noteq> []"
  shows "marked t (c # s) (c # out)"
  using assms(1)
proof cases
  case none
  with assms(2) have "\<not> ci_substring t (c # s)"
    by (simp add: ci_substring_Cons)
  with none show ?thesis
    by (simp add: marked.none)
next
  case (first occ pre post out')
  from first(3) assms(3) have ne: "occ \<noteq> []"
    by auto
  have "\<not> matches_at t (c # pre @ butlast occ)"
  proof
    assume "matches_at t (c # pre @ butlast occ)"
    then have "matches_at t ((c # pre @ butlast occ) @ [last occ] @ post)"
      by (rule matches_at_append)
    moreover have "(c # pre @ butlast occ) @ [last occ] @ post = c # s"
      using ne first(1) by simp
    ultimately show False
      using assms(2) by simp
  qed
  with first(4) have "\<not> ci_substring t ((c # pre) @ butlast occ)"
    by (simp add: ci_substring_Cons)
  from marked.first [OF first(3) this first(5)] first(1,2) show ?thesis
    by simp
qed

lemma replace_literal_marked:
  "t \<noteq> [] \<Longrightarrow> marked t s (replace_literal t s)"
proof (induction t s rule: replace_literal.induct)
  case (1 t)
  then have "\<not> ci_substring t []"
    by (auto dest: ci_substring_length)
  then show ?case
    by (simp add: marked.none)
next
  case (2 t c s)
  show ?case
  proof (cases "matches_at t (c # s)")
    case True
    let ?occ = "take (length t) (c # s)"
    let ?post = "drop (length t) (c # s)"
    from True have l: "list_all2 same_letter ?occ t"
      by (rule matches_at_split)
    then have "length ?occ = length t"
      by (rule list_all2_lengthD)
    with 2(3) have "length (butlast ?occ) < length t"
      by (simp del: take_Suc_Cons length_take)
    then have n: "\<not> ci_substring t ([] @ butlast ?occ)"
      by (auto dest: ci_substring_length simp del: take_Suc_Cons)
    from 2(1) True 2(3) have "marked t ?post (replace_literal t ?post)"
      by simp
    from marked.first [OF l n this] True 2(3) show ?thesis
      by (simp del: take_Suc_Cons drop_Suc_Cons)
  next
    case False
    with 2(2,3) have "marked t s (replace_literal t s)"
      by simp
    from marked_Cons [OF this False 2(3)] False show ?thesis
      by simp
  qed
qed

lemma nonblank_nonempty: "\<not> blank q \<Longrightarrow> q \<noteq> []"
  by (auto simp: blank_def)

lemma highlightSearchTerm_literal_eq:
  "\<not> blank q \<Longrightarrow> list_all (\<lambda>c. \<not> is_syntax_char c) q \<Longrightarrow>
   highlightSearchTerm rx text q = Returns (replace_literal q text)"
  by (simp add: highlightSearchTerm_def truthy_def trim_empty_iff regexp_replace_gi_def
        literal_group_wrap nonblank_nonempty)

lemma highlightSearchTerm_blank: "blank q \<Longrightarrow> highlightSearchTerm rx text q = Returns text"
  by (simp add: highlightSearchTerm_def truthy_def trim_empty_iff)

lemma MessageItem_body_blank:
  "blank q \<Longrightarrow> MessageItem_body rx m q = MessageItem_body rx m []"
  by (simp add: MessageItem_body_def highlightSearchTerm_blank truthy_def)


text \<open>
  C6, as the code has it. For a search term that is not blank and contains no character
  with a meaning of its own in a regular expression, \<open>highlightSearchTerm\<close> returns the
  body with the case-insensitive occurrences of the term, found from the left without
  overlap, each wrapped between the opening and the closing tag; for a text message
  that string, tags included, is the text handed to the markdown parser.
\<close>

theorem highlightSearchTerm_wraps_occurrences:
  assumes "\<not> blank q" and "list_all (\<lambda>c. \<not> is_syntax_char c) q"
  shows "highlightSearchTerm rx (content m) q = Returns (replace_literal q (content m))
         \<and> marked q (content m) (replace_literal q (content m))
         \<and> (messageType m = ''text'' \<longrightarrow>
              MessageItem_body rx m q = Returns (MarkdownContent (replace_literal q (content m))))"
proof -
  have h: "highlightSearchTerm rx (content m) q = Returns (replace_literal q (content m))"
    using assms by (rule highlightSearchTerm_literal_eq)
  have ne: "q \<noteq> []"
    using assms(1) by (rule nonblank_nonempty)
  then have "marked q (content m) (replace_literal q (content m))"
    by (rule replace_literal_marked)
  moreover have "MessageItem_body rx m q = Returns (MarkdownContent (replace_literal q (content m)))"
    if "messageType m = ''text''"
    using that ne by (simp add: MessageItem_body_def truthy_def h)
  ultimately show ?thesis
    using h by blast
qed

theorem highlightSearchTerm_wraps_occurrences_witness:
  "marked ''hello'' ''Say hello, HELLO''
     (''Say '' @ mark_open @ ''hello'' @ mark_close @ '', '' @ mark_open @ ''HELLO'' @ mark_close)
   \<and> MessageItem_body rejecting_engine (text_message ''m1'' ''u1'' ''Say hello, HELLO'' 0) ''hello''
       = Returns (MarkdownContent
           (''Say '' @ mark_open @ ''hello'' @ mark_close @ '', '' @ mark_open @ ''HELLO'' @ mark_close))"
proof -
  have b: "\<not> blank ''hello''" by code_simp
  have l: "list_all (\<lambda>c. \<not> is_syntax_char c) ''hello''" by code_simp
  have c: "content (text_message ''m1'' ''u1'' ''Say hello, HELLO'' 0) = ''Say hello, HELLO''"
    and t: "messageType (text_message ''m1'' ''u1'' ''Say hello, HELLO'' 0) = ''text''"
    by (simp_all add: text_message_def)
  have r: "replace_literal ''hello'' ''Say hello, HELLO''
           = ''Say '' @ mark_open @ ''hello'' @ mark_close @ '', '' @ mark_open @ ''HELLO'' @ mark_close"
    by code_simp
  from highlightSearchTerm_wraps_occurrences
         [OF b l, of rejecting_engine "text_message ''m1'' ''u1'' ''Say hello, HELLO'' 0"]
  show ?thesis
    unfolding c r using t by blast
qed

text \<open>
  C6 as stated fails for the term of one space, which is not empty: the body \<open>a b\<close>
  contains it, and the text handed to the markdown parser is the body as it is, without
  a tag.
\<close>

theorem highlightSearchTerm_space_counterexample:
  "'' '' \<noteq> []
   \<and> ci_substring '' '' ''a b''
   \<and> highlightSearchTerm rejecting_engine ''a b'' '' '' = Returns ''a b''
   \<and> MessageItem_body rejecting_engine (text_message ''m1'' ''u1'' ''a b'' 0) '' ''
       = Returns (MarkdownContent ''a b'')
   \<and> \<not> includes_str ''a b'' mark_open"
proof -
  have "ci_substring '' '' ''a b''"
    unfolding includes_toLowerCase_iff [symmetric] by code_simp
  moreover have "highlightSearchTerm rejecting_engine ''a b'' '' '' = Returns ''a b''"
    by code_simp
  moreover have "MessageItem_body rejecting_engine (text_message ''m1'' ''u1'' ''a b'' 0) '' ''
       = Returns (MarkdownContent ''a b'')"
    by code_simp
  moreover have "\<not> includes_str ''a b'' mark_open"
    by code_simp
  ultimately show ?thesis by simp
qed

section \<open>Rendering by message type\<close>

text \<open>
  The two branches of the render. A message of a type other than \<open>text\<close> renders as the
  text \<open>Unsupported message type: \<close> followed by its type, for every search term and
  every engine: that path returns and evaluates no regular expression. A message of type
  \<open>text\<close> renders as markdown content of its body when no search term is given, and as
  markdown content for every search term without a character that has a meaning of its
  own in a regular expression. Whenever the render returns, what it returns is markdown
  content if and only if the type is \<open>text\<close>.
\<close>

lemma MessageItem_body_by_type:
  "(messageType m \<noteq> ''text'' \<longrightarrow>
      MessageItem_body rx m q
        = Returns (UnsupportedType (''Unsupported message type: '' @ messageType m)))
   \<and> (messageType m = ''text'' \<longrightarrow>
        MessageItem_body rx m [] = Returns (MarkdownContent (content m)))
   \<and> (messageType m = ''text'' \<and> list_all (\<lambda>c. \<not> is_syntax_char c) q \<longrightarrow>
        (\<exists>children. MessageItem_body rx m q = Returns (MarkdownContent children)))
   \<and> (\<forall>v. MessageItem_body rx m q = Returns v \<longrightarrow>
         ((\<exists>children. v = MarkdownContent children) \<longleftrightarrow> messageType m = ''text''))"
proof -
  have "\<exists>children. MessageItem_body rx m q = Returns (MarkdownContent children)"
    if t: "messageType m = ''text''" and l: "list_all (\<lambda>c. \<not> is_syntax_char c) q"
  proof (cases "blank q")
    case True
    then show ?thesis
      using t by (simp add: MessageItem_body_def highlightSearchTerm_blank)
  next
    case False
    then show ?thesis
      using t l by (simp add: MessageItem_body_def highlightSearchTerm_literal_eq)
  qed
  moreover have "(\<exists>children. v = MarkdownContent children) \<longleftrightarrow> messageType m = ''text''"
    if "MessageItem_body rx m q = Returns v" for v
    using that by (auto simp: MessageItem_body_def split: if_splits js_result.splits)
  moreover have "MessageItem_body rx m q
        = Returns (UnsupportedType (''Unsupported message type: '' @ messageType m))"
    if "messageType m \<noteq> ''text''"
    using that by (simp add: MessageItem_body_def)
  moreover have "MessageItem_body rx m [] = Returns (MarkdownContent (content m))"
    if "messageType m = ''text''"
    using that by (simp add: MessageItem_body_def truthy_def)
  ultimately show ?thesis
    by blast
qed

text \<open>
  C8, on the \<open>text\<close> branch with a search term that is not a regular expression. The
  text message with the body \<open>f(x)\<close> contains the search term \<open>(\<close>, so it passes the
  filter and is displayed. Its render evaluates \<open>highlightSearchTerm\<close>, which builds the
  pattern source \<open>(()\<close>: a group that is never closed, for which \<open>new RegExp\<close> raises a
  \<open>SyntaxError\<close>. For every engine that rejects this pattern source the render of the
  message throws, so the text message is not rendered as markdown content.
\<close>

theorem MessageItem_body_syntax_term_throws:
  assumes "rx ''(()'' ''f(x)'' = Throws"
  shows "messageType (typed_message ''text'' ''f(x)'') = ''text''
     \<and> filteredMessages [typed_message ''text'' ''f(x)''] ''(''
         = [typed_message ''text'' ''f(x)'']
     \<and> highlightSearchTerm rx ''f(x)'' ''('' = Throws
     \<and> MessageItem_body rx (typed_message ''text'' ''f(x)'') ''('' = Throws
     \<and> MessageList rx [typed_message ''text'' ''f(x)''] ''(''
         = Feed [\<lparr>item_message = typed_message ''text'' ''f(x)'', item_showAvatar = True,
                  item_body = Throws\<rparr>]"
proof -
  have t: "messageType (typed_message ''text'' ''f(x)'') = ''text''"
    and c: "content (typed_message ''text'' ''f(x)'') = ''f(x)''"
    by (simp_all add: typed_message_def)
  have f: "filteredMessages [typed_message ''text'' ''f(x)''] ''(''
         = [typed_message ''text'' ''f(x)'']"
    by code_simp
  have g: "literal_group ''(()'' = None"
    by code_simp
  have b: "truthy (trim ''('')"
    by code_simp
  have h: "highlightSearchTerm rx ''f(x)'' ''('' = Throws"
    using assms g b by (simp add: highlightSearchTerm_def regexp_replace_gi_def)
  have i: "MessageItem_body rx (typed_message ''text'' ''f(x)'') ''('' = Throws"
    using h by (simp add: MessageItem_body_def t c truthy_def)
  have l: "MessageList rx [typed_message ''text'' ''f(x)''] ''(''
         = Feed [\<lparr>item_message = typed_message ''text'' ''f(x)'', item_showAvatar = True,
                  item_body = Throws\<rparr>]"
    unfolding MessageList_def f Let_def using b by (simp add: i showAvatar_def)
  from t f h i l show ?thesis
    by (intro conjI)
qed

theorem MessageItem_body_syntax_term_throws_witness:
  "MessageItem_body rejecting_engine (typed_message ''text'' ''f(x)'') ''('' = Throws
   \<and> filteredMessages [typed_message ''text'' ''f(x)''] ''(''
         = [typed_message ''text'' ''f(x)'']"
proof -
  have "rejecting_engine ''(()'' ''f(x)'' = Throws"
    by (simp add: rejecting_engine_def)
  from MessageItem_body_syntax_term_throws [of rejecting_engine, OF this] show ?thesis
    by (intro conjI) (elim conjE, assumption)+
qed

section \<open>A filter text of white space only\<close>

text \<open>
  C10. A filter text that is blank (white space only, or empty) behaves as the empty
  filter text does: every message passes the filter; \<open>highlightSearchTerm\<close> returns the
  body as it is, so each message body renders as it does without a filter text and a
  text message hands its unchanged body to the markdown parser; the whole displayed list
  is the one shown for the empty filter text; and for an empty message list the state
  shown is the beginning of the conversation, not the no-results state.
\<close>

theorem blank_query_like_empty:
  assumes "blank q"
  shows "filteredMessages msgs q = msgs
         \<and> filteredMessages msgs q = filteredMessages msgs []
         \<and> highlightSearchTerm rx text q = Returns text
         \<and> MessageItem_body rx m q = MessageItem_body rx m []
         \<and> (messageType m = ''text'' \<longrightarrow> MessageItem_body rx m q = Returns (MarkdownContent (content m)))
         \<and> MessageList rx msgs q = MessageList rx msgs []
         \<and> MessageList rx [] q = BeginningOfConversation"
proof -
  have e: "blank []" by (simp add: blank_def)
  have t: "\<not> truthy (trim q)" using assms by (simp add: truthy_def trim_empty_iff)
  have t0: "\<not> truthy (trim [])" using e by (simp add: truthy_def trim_empty_iff)
  have f: "filteredMessages msgs q = msgs" "filteredMessages msgs [] = msgs"
    using assms e by (simp_all add: filteredMessages_blank)
  have l: "MessageList rx msgs q = MessageList rx msgs []"
    unfolding MessageList_def f Let_def using t t0
    by (simp add: MessageItem_body_blank [OF assms])
  have b: "MessageList rx [] q = BeginningOfConversation"
    using t by (simp add: MessageList_def filteredMessages_def)
  have x: "MessageItem_body rx m q = Returns (MarkdownContent (content m))" if "messageType m = ''text''"
    unfolding MessageItem_body_blank [OF assms]
    using that by (simp add: MessageItem_body_def truthy_def)
  show ?thesis
    using f l b x by (simp add: highlightSearchTerm_blank [OF assms] MessageItem_body_blank [OF assms])
qed


theorem blank_query_like_empty_witness:
  "filteredMessages [text_message ''m1'' ''u1'' ''say hello world'' 0] ''  ''
     = [text_message ''m1'' ''u1'' ''say hello world'' 0]
   \<and> highlightSearchTerm rejecting_engine ''say hello  world'' ''  '' = Returns ''say hello  world''
   \<and> MessageList rejecting_engine [text_message ''m1'' ''u1'' ''say hello world'' 0] ''  ''
       = MessageList rejecting_engine [text_message ''m1'' ''u1'' ''say hello world'' 0] []
   \<and> MessageList rejecting_engine [] ''  '' = BeginningOfConversation"
proof -
  have b: "blank ''  ''" by code_simp
  from blank_query_like_empty
         [OF b, of "[text_message ''m1'' ''u1'' ''say hello world'' 0]" rejecting_engine
            "''say hello  world''"]
  show ?thesis
    by blast
qed


section \<open>The first workspace\<close>

lemma length_groupMembers_list:
  "length (groupMembers_list db uid) = length (filter (\<lambda>gm. gm_userId gm = uid) (db_groupMembers db))"
  by (simp add: groupMembers_list_def)

lemma groupMembers_list_empty:
  "\<forall>gm \<in> set (db_groupMembers db). gm_userId gm \<noteq> uid \<Longrightarrow> groupMembers_list db uid = []"
  by (simp add: groupMembers_list_def filter_empty_conv)

lemma groupMembers_list_nonempty:
  "gm \<in> set (db_groupMembers db) \<Longrightarrow> gm_userId gm = uid \<Longrightarrow> 0 < length (groupMembers_list db uid)"
  unfolding length_groupMembers_list by (auto simp: filter_empty_conv)

lemma loadGroups_member_keeps_store:
  assumes "0 < length (groupMembers_list db (u_id u))"
  shows "fst (loadGroups e u db st) = db"
  using assms by (simp add: loadGroups_def Let_def)

lemma loadGroups_member_keeps_active:
  assumes "0 < length (groupMembers_list db (u_id u))" and "\<not> falsy (activeGroup st)"
  shows "activeGroup (snd (loadGroups e u db st)) = activeGroup st"
    and "activeChannel (snd (loadGroups e u db st)) = activeChannel st"
    and "user (snd (loadGroups e u db st)) = user st"
  using assms by (simp_all add: loadGroups_def Let_def)

lemma loadGroups_bootstrap:
  assumes "groupMembers_list db (u_id u) = []"
    and "\<not> rejects e ListGroupMembers" and "\<not> rejects e CreateGroup"
    and "\<not> rejects e CreateGroupMember" and "\<not> rejects e CreateChannel"
  shows "loadGroups e u db st =
     (let g = \<lparr>g_id = ''group_'' @ decimal (date_now e CreateGroup), g_name = ''General'',
               g_description = Some ''Default workspace'', g_createdBy = u_id u,
               g_createdAt = server_time e CreateGroup\<rparr>;
          m = \<lparr>gm_id = ''member_'' @ decimal (date_now e CreateGroupMember),
               gm_groupId = g_id g, gm_userId = u_id u, gm_role = ''admin'',
               gm_joinedAt = server_time e CreateGroupMember\<rparr>;
          c = \<lparr>c_id = ''channel_'' @ decimal (date_now e CreateChannel), c_groupId = g_id g,
               c_name = ''general'', c_description = Some ''General discussion'',
               c_isPrivate = False, c_createdBy = u_id u,
               c_createdAt = server_time e CreateChannel\<rparr>
      in (\<lparr>db_groups = db_groups db @ [g], db_groupMembers = db_groupMembers db @ [m],
           db_channels = db_channels db @ [c]\<rparr>,
          st\<lparr>groups := [g], channels := [c], activeGroup := Some (g_id g),
             activeChannel := Some (c_id c)\<rparr>))"
  using assms
  by (simp add: loadGroups_def groups_create_def groupMembers_create_def channels_create_def Let_def)

lemma loadGroups_rejected_keeps_state:
  assumes "groupMembers_list db (u_id u) = []"
    and "rejects e ListGroupMembers \<or> rejects e CreateGroup
         \<or> rejects e CreateGroupMember \<or> rejects e CreateChannel"
  shows "snd (loadGroups e u db st) = st"
  using assms
  by (auto simp: loadGroups_def groups_create_def groupMembers_create_def channels_create_def Let_def)

lemma loadGroups_appends_groups:
  "\<exists>gs. length gs \<le> 1 \<and> db_groups (fst (loadGroups e u db st)) = db_groups db @ gs"
  by (simp add: loadGroups_def groups_create_def groupMembers_create_def channels_create_def Let_def)

lemma loadGroups_appends_members:
  "\<exists>ms. length ms \<le> 1 \<and> db_groupMembers (fst (loadGroups e u db st)) = db_groupMembers db @ ms"
  by (simp add: loadGroups_def groups_create_def groupMembers_create_def channels_create_def Let_def)

lemma loadGroups_appends_channels:
  "\<exists>cs. length cs \<le> 1 \<and> db_channels (fst (loadGroups e u db st)) = db_channels db @ cs"
  by (simp add: loadGroups_def groups_create_def groupMembers_create_def channels_create_def Let_def)

lemma loadGroups_creates_at_most_one:
  "length (db_groups (fst (loadGroups e u db st))) \<le> Suc (length (db_groups db))
   \<and> length (db_groupMembers (fst (loadGroups e u db st))) \<le> Suc (length (db_groupMembers db))
   \<and> length (db_channels (fst (loadGroups e u db st))) \<le> Suc (length (db_channels db))"
  by (simp add: loadGroups_def groups_create_def groupMembers_create_def channels_create_def Let_def)

lemma loadGroups_bootstrap_resolved:
  assumes "user st = Some u" and "truthy (u_id u)"
    and "\<forall>gm \<in> set (db_groupMembers db). gm_userId gm \<noteq> u_id u"
    and "\<not> rejects e ListGroupMembers \<and> \<not> rejects e CreateGroup
         \<and> \<not> rejects e CreateGroupMember \<and> \<not> rejects e CreateChannel"
  shows "\<exists>g m c.
       db_groups (fst (loadGroups_effect e db st)) = db_groups db @ [g]
     \<and> g_name g = ''General'' \<and> g_createdBy g = u_id u
     \<and> db_groupMembers (fst (loadGroups_effect e db st)) = db_groupMembers db @ [m]
     \<and> gm_role m = ''admin'' \<and> gm_userId m = u_id u \<and> gm_groupId m = g_id g
     \<and> db_channels (fst (loadGroups_effect e db st)) = db_channels db @ [c]
     \<and> c_name c = ''general'' \<and> c_groupId c = g_id g
     \<and> groups (snd (loadGroups_effect e db st)) = [g]
     \<and> channels (snd (loadGroups_effect e db st)) = [c]
     \<and> activeGroup (snd (loadGroups_effect e db st)) = Some (g_id g)
     \<and> activeChannel (snd (loadGroups_effect e db st)) = Some (c_id c)
     \<and> (\<forall>e2. fst (loadGroups_effect e2 (fst (loadGroups_effect e db st))
                                        (snd (loadGroups_effect e db st)))
                 = fst (loadGroups_effect e db st)
              \<and> loadGroups_deps (snd (loadGroups_effect e2 (fst (loadGroups_effect e db st))
                                                          (snd (loadGroups_effect e db st))))
                 = loadGroups_deps (snd (loadGroups_effect e db st))
              \<and> activeChannel (snd (loadGroups_effect e2 (fst (loadGroups_effect e db st))
                                                        (snd (loadGroups_effect e db st))))
                 = Some (c_id c)
              \<and> fst (session e e2 db st) = fst (loadGroups_effect e db st))"
proof -
  define g where "g = \<lparr>g_id = ''group_'' @ decimal (date_now e CreateGroup), g_name = ''General'',
               g_description = Some ''Default workspace'', g_createdBy = u_id u,
               g_createdAt = server_time e CreateGroup\<rparr>"
  define m where "m = \<lparr>gm_id = ''member_'' @ decimal (date_now e CreateGroupMember),
               gm_groupId = g_id g, gm_userId = u_id u, gm_role = ''admin'',
               gm_joinedAt = server_time e CreateGroupMember\<rparr>"
  define c where "c = \<lparr>c_id = ''channel_'' @ decimal (date_now e CreateChannel), c_groupId = g_id g,
               c_name = ''general'', c_description = Some ''General discussion'',
               c_isPrivate = False, c_createdBy = u_id u,
               c_createdAt = server_time e CreateChannel\<rparr>"
  define db1 where "db1 = \<lparr>db_groups = db_groups db @ [g], db_groupMembers = db_groupMembers db @ [m],
           db_channels = db_channels db @ [c]\<rparr>"
  define st1 where "st1 = st\<lparr>groups := [g], channels := [c], activeGroup := Some (g_id g),
             activeChannel := Some (c_id c)\<rparr>"
  have none: "groupMembers_list db (u_id u) = []"
    using assms(3) by (rule groupMembers_list_empty)
  have run: "loadGroups_effect e db st = (db1, st1)"
    using assms(1,2) loadGroups_bootstrap [OF none, of e st] assms(4)
    by (simp add: loadGroups_effect_def Let_def g_def m_def c_def db1_def st1_def)
  have u1: "user st1 = Some u"
    using assms(1) by (simp add: st1_def)
  have "m \<in> set (db_groupMembers db1)" and "gm_userId m = u_id u"
    by (simp_all add: db1_def m_def)
  then have some: "0 < length (groupMembers_list db1 (u_id u))"
    by (rule groupMembers_list_nonempty)
  have act: "\<not> falsy (activeGroup st1)"
    by (simp add: st1_def falsy_def truthy_def g_def)
  have again: "loadGroups_effect e2 db1 st1 = loadGroups e2 u db1 st1" for e2
    using u1 assms(2) by (simp add: loadGroups_effect_def)
  have r1: "fst (loadGroups_effect e2 db1 st1) = db1" for e2
    unfolding again using some by (rule loadGroups_member_keeps_store)
  have r2: "loadGroups_deps (snd (loadGroups_effect e2 db1 st1)) = loadGroups_deps st1" for e2
    unfolding again loadGroups_deps_def
    using loadGroups_member_keeps_active [OF some act, of e2] by simp
  have r3: "activeChannel (snd (loadGroups_effect e2 db1 st1)) = Some (c_id c)" for e2
    unfolding again
    using loadGroups_member_keeps_active(2) [OF some act, of e2] by (simp add: st1_def)
  have r4: "fst (session e e2 db st) = db1" for e2
    by (simp add: session_def run r1)
  have "db_groups db1 = db_groups db @ [g]" "g_name g = ''General''" "g_createdBy g = u_id u"
    "db_groupMembers db1 = db_groupMembers db @ [m]" "gm_role m = ''admin''"
    "gm_userId m = u_id u" "gm_groupId m = g_id g"
    "db_channels db1 = db_channels db @ [c]" "c_name c = ''general''" "c_groupId c = g_id g"
    "groups st1 = [g]" "channels st1 = [c]"
    "activeGroup st1 = Some (g_id g)" "activeChannel st1 = Some (c_id c)"
    by (simp_all add: db1_def st1_def g_def m_def c_def)
  with r1 r2 r3 r4 show ?thesis
    unfolding run fst_conv snd_conv by blast
qed


text \<open>
  C7, as the code has it. For a signed-in user (\<open>user?.id\<close> is truthy) without a
  membership in the store: when the listing of the memberships and the three \<open>create\<close>
  calls resolve, one run of the effect appends to the store exactly one workspace, named
  \<open>General\<close> and created by the user, exactly one membership, of that user in that
  workspace with the role \<open>admin\<close>, and exactly one channel, named \<open>general\<close> in that
  workspace, and makes that workspace and that channel the active ones; the run changes
  the dependency \<open>activeGroup\<close>, so the effect runs again, and that second run, whatever
  its remote calls do, leaves the store, the dependencies and the active channel as they
  are, so that no further run follows. Whichever calls reject, one run appends at most
  one workspace, at most one membership and at most one channel, and the store after the
  whole transition is the store after the first run: the second run, if there is one,
  creates nothing.
\<close>

theorem loadGroups_bootstrap_once:
  assumes "user st = Some u" and "truthy (u_id u)"
    and "\<forall>gm \<in> set (db_groupMembers db). gm_userId gm \<noteq> u_id u"
  shows "(\<not> rejects e ListGroupMembers \<and> \<not> rejects e CreateGroup
         \<and> \<not> rejects e CreateGroupMember \<and> \<not> rejects e CreateChannel
       \<longrightarrow> (\<exists>g m c.
           db_groups (fst (loadGroups_effect e db st)) = db_groups db @ [g]
         \<and> g_name g = ''General'' \<and> g_createdBy g = u_id u
         \<and> db_groupMembers (fst (loadGroups_effect e db st)) = db_groupMembers db @ [m]
         \<and> gm_role m = ''admin'' \<and> gm_userId m = u_id u \<and> gm_groupId m = g_id g
         \<and> db_channels (fst (loadGroups_effect e db st)) = db_channels db @ [c]
         \<and> c_name c = ''general'' \<and> c_groupId c = g_id g
         \<and> groups (snd (loadGroups_effect e db st)) = [g]
         \<and> channels (snd (loadGroups_effect e db st)) = [c]
         \<and> activeGroup (snd (loadGroups_effect e db st)) = Some (g_id g)
         \<and> activeChannel (snd (loadGroups_effect e db st)) = Some (c_id c)
         \<and> (\<forall>e2. fst (loadGroups_effect e2 (fst (loadGroups_effect e db st))
                                            (snd (loadGroups_effect e db st)))
                     = fst (loadGroups_effect e db st)
                  \<and> loadGroups_deps (snd (loadGroups_effect e2 (fst (loadGroups_effect e db st))
                                                              (snd (loadGroups_effect e db st))))
                     = loadGroups_deps (snd (loadGroups_effect e db st))
                  \<and> activeChannel (snd (loadGroups_effect e2 (fst (loadGroups_effect e db st))
                                                            (snd (loadGroups_effect e db st))))
                     = Some (c_id c)
                  \<and> fst (session e e2 db st) = fst (loadGroups_effect e db st))))
   \<and> (\<exists>gs ms cs. length gs \<le> 1 \<and> length ms \<le> 1 \<and> length cs \<le> 1
         \<and> db_groups (fst (loadGroups_effect e db st)) = db_groups db @ gs
         \<and> db_groupMembers (fst (loadGroups_effect e db st)) = db_groupMembers db @ ms
         \<and> db_channels (fst (loadGroups_effect e db st)) = db_channels db @ cs)
   \<and> (\<forall>e2. fst (session e e2 db st) = fst (loadGroups_effect e db st))"
proof (intro conjI impI allI)
  assume r: "\<not> rejects e ListGroupMembers \<and> \<not> rejects e CreateGroup
         \<and> \<not> rejects e CreateGroupMember \<and> \<not> rejects e CreateChannel"
  from loadGroups_bootstrap_resolved [OF assms r]
  show "\<exists>g m c.
       db_groups (fst (loadGroups_effect e db st)) = db_groups db @ [g]
     \<and> g_name g = ''General'' \<and> g_createdBy g = u_id u
     \<and> db_groupMembers (fst (loadGroups_effect e db st)) = db_groupMembers db @ [m]
     \<and> gm_role m = ''admin'' \<and> gm_userId m = u_id u \<and> gm_groupId m = g_id g
     \<and> db_channels (fst (loadGroups_effect e db st)) = db_channels db @ [c]
     \<and> c_name c = ''general'' \<and> c_groupId c = g_id g
     \<and> groups (snd (loadGroups_effect e db st)) = [g]
     \<and> channels (snd (loadGroups_effect e db st)) = [c]
     \<and> activeGroup (snd (loadGroups_effect e db st)) = Some (g_id g)
     \<and> activeChannel (snd (loadGroups_effect e db st)) = Some (c_id c)
     \<and> (\<forall>e2. fst (loadGroups_effect e2 (fst (loadGroups_effect e db st))
                                        (snd (loadGroups_effect e db st)))
                 = fst (loadGroups_effect e db st)
              \<and> loadGroups_deps (snd (loadGroups_effect e2 (fst (loadGroups_effect e db st))
                                                          (snd (loadGroups_effect e db st))))
                 = loadGroups_deps (snd (loadGroups_effect e db st))
              \<and> activeChannel (snd (loadGroups_effect e2 (fst (loadGroups_effect e db st))
                                                        (snd (loadGroups_effect e db st))))
                 = Some (c_id c)
              \<and> fst (session e e2 db st) = fst (loadGroups_effect e db st))" .
next
  have eff: "loadGroups_effect e db st = loadGroups e u db st"
    using assms(1,2) by (simp add: loadGroups_effect_def)
  from loadGroups_appends_groups [of e u db st] obtain gs
    where gs: "length gs \<le> 1" "db_groups (fst (loadGroups e u db st)) = db_groups db @ gs"
    by blast
  from loadGroups_appends_members [of e u db st] obtain ms
    where ms: "length ms \<le> 1"
      "db_groupMembers (fst (loadGroups e u db st)) = db_groupMembers db @ ms"
    by blast
  from loadGroups_appends_channels [of e u db st] obtain cs
    where cs: "length cs \<le> 1" "db_channels (fst (loadGroups e u db st)) = db_channels db @ cs"
    by blast
  from gs ms cs
  show "\<exists>gs ms cs. length gs \<le> 1 \<and> length ms \<le> 1 \<and> length cs \<le> 1
         \<and> db_groups (fst (loadGroups_effect e db st)) = db_groups db @ gs
         \<and> db_groupMembers (fst (loadGroups_effect e db st)) = db_groupMembers db @ ms
         \<and> db_channels (fst (loadGroups_effect e db st)) = db_channels db @ cs"
    unfolding eff by blast
next
  fix e2
  have eff: "loadGroups_effect e db st = loadGroups e u db st"
    using assms(1,2) by (simp add: loadGroups_effect_def)
  have none: "groupMembers_list db (u_id u) = []"
    using assms(3) by (rule groupMembers_list_empty)
  show "fst (session e e2 db st) = fst (loadGroups_effect e db st)"
  proof (cases "\<not> rejects e ListGroupMembers \<and> \<not> rejects e CreateGroup
         \<and> \<not> rejects e CreateGroupMember \<and> \<not> rejects e CreateChannel")
    case True
    from loadGroups_bootstrap_resolved [OF assms True] show ?thesis
      by blast
  next
    case False
    then have "snd (loadGroups e u db st) = st"
      by (intro loadGroups_rejected_keeps_state [OF none]) blast
    then show ?thesis
      by (simp add: session_def eff case_prod_beta)
  qed
qed

theorem loadGroups_bootstrap_once_witness:
  "map g_name (db_groups (fst (session all_resolve all_resolve empty_db signed_in))) = [''General'']
   \<and> map gm_role (db_groupMembers (fst (session all_resolve all_resolve empty_db signed_in)))
       = [''admin'']
   \<and> map gm_userId (db_groupMembers (fst (session all_resolve all_resolve empty_db signed_in)))
       = [''usr_1'']
   \<and> map c_name (db_channels (fst (session all_resolve all_resolve empty_db signed_in)))
       = [''general'']
   \<and> map g_id (groups (snd (loadGroups_effect all_resolve empty_db signed_in)))
       = [''group_1700000000000'']
   \<and> activeGroup (snd (loadGroups_effect all_resolve empty_db signed_in))
       = Some ''group_1700000000000''
   \<and> activeChannel (snd (loadGroups_effect all_resolve empty_db signed_in))
       = Some ''channel_1700000000000''"
proof -
  have h1: "user signed_in = Some new_user"
    and h2: "truthy (u_id new_user)"
    and h3: "\<forall>gm \<in> set (db_groupMembers empty_db). gm_userId gm \<noteq> u_id new_user"
    and h4: "\<not> rejects all_resolve ListGroupMembers \<and> \<not> rejects all_resolve CreateGroup
         \<and> \<not> rejects all_resolve CreateGroupMember \<and> \<not> rejects all_resolve CreateChannel"
    by (simp_all add: signed_in_def new_user_def empty_db_def all_resolve_def truthy_def)
  have d: "decimal 1700000000000 = ''1700000000000''"
    by (simp add: decimal.simps digit_def)
  have a: "activeGroup (snd (loadGroups_effect all_resolve empty_db signed_in))
             = Some ''group_1700000000000''"
    and b: "activeChannel (snd (loadGroups_effect all_resolve empty_db signed_in))
             = Some ''channel_1700000000000''"
    using loadGroups_bootstrap [of empty_db new_user all_resolve signed_in] h4
    by (simp_all add: loadGroups_effect_def signed_in_def new_user_def empty_db_def
          all_resolve_def truthy_def groupMembers_list_def Let_def d)
  from loadGroups_bootstrap_once [OF h1 h2 h3, of all_resolve, THEN conjunct1, THEN mp, OF h4]
  obtain g m c where
    "db_groups (fst (loadGroups_effect all_resolve empty_db signed_in)) = db_groups empty_db @ [g]"
    "g_name g = ''General''"
    "db_groupMembers (fst (loadGroups_effect all_resolve empty_db signed_in))
       = db_groupMembers empty_db @ [m]"
    "gm_role m = ''admin''" "gm_userId m = u_id new_user"
    "db_channels (fst (loadGroups_effect all_resolve empty_db signed_in))
       = db_channels empty_db @ [c]"
    "c_name c = ''general''"
    "groups (snd (loadGroups_effect all_resolve empty_db signed_in)) = [g]"
    "activeGroup (snd (loadGroups_effect all_resolve empty_db signed_in)) = Some (g_id g)"
    "fst (session all_resolve all_resolve empty_db signed_in)
       = fst (loadGroups_effect all_resolve empty_db signed_in)"
    by blast
  then show ?thesis
    using a b by (simp add: empty_db_def new_user_def)
qed



text \<open>
  C7 as stated fails when \<open>groupMembers.create\<close> rejects: for the new user and the empty
  store the run has created the workspace \<open>General\<close>, and no membership and no channel,
  and no workspace or channel is active.
\<close>

theorem loadGroups_member_rejected_counterexample:
  "user signed_in = Some new_user
   \<and> truthy (u_id new_user)
   \<and> db_groupMembers empty_db = []
   \<and> map g_name (db_groups (fst (loadGroups_effect member_create_rejects empty_db signed_in)))
       = [''General'']
   \<and> db_groupMembers (fst (loadGroups_effect member_create_rejects empty_db signed_in)) = []
   \<and> db_channels (fst (loadGroups_effect member_create_rejects empty_db signed_in)) = []
   \<and> activeGroup (snd (loadGroups_effect member_create_rejects empty_db signed_in)) = None
   \<and> activeChannel (snd (loadGroups_effect member_create_rejects empty_db signed_in)) = None"
  by (simp add: loadGroups_effect_def loadGroups_def signed_in_def new_user_def empty_db_def
        member_create_rejects_def truthy_def groupMembers_list_def groups_create_def Let_def)


end
